theory Spec2Isabelle
  imports Complex_Main "HOL-Library.Word"
begin

section \<open>Data model of the vmaf element\<close>

text \<open>
  The element keeps one \<open>GstVmafThreadHelper\<close> per non-reference sink pad. The three
  \<open>GMutex\<close> fields are used as binary semaphores: one thread locks, another unlocks.
  A mutex is therefore modelled by its state alone; \<open>g_mutex_lock\<close> on a locked
  mutex does not return, which the model records as the fault \<open>Blocked\<close>.
  A read or write outside a buffer is the fault \<open>OutOfBounds\<close>, an exception that
  leaves \<open>RunVMAF\<close> uncaught is the fault \<open>Terminated\<close>.
\<close>

datatype GMutex = Unlocked | Locked

datatype fault = Blocked | OutOfBounds | Terminated

datatype GstTaskState = GST_TASK_STARTED | GST_TASK_STOPPED | GST_TASK_PAUSED

text \<open>
  A \<open>GstTask\<close> is seen through the calls the element makes on it: its state, and the
  number of \<open>gst_task_start\<close> calls it has received.
\<close>

record GstTask =
  task_state :: GstTaskState
  start_calls :: nat

definition gst_task_new :: GstTask where
  "gst_task_new = \<lparr>task_state = GST_TASK_STOPPED, start_calls = 0\<rparr>"

definition gst_task_start :: "GstTask \<Rightarrow> GstTask" where
  "gst_task_start t = t\<lparr>task_state := GST_TASK_STARTED, start_calls := Suc (start_calls t)\<rparr>"

definition gst_task_stop :: "GstTask \<Rightarrow> GstTask" where
  "gst_task_stop t = t\<lparr>task_state := GST_TASK_STOPPED\<rparr>"

definition try_thread_stop :: "GstTask \<Rightarrow> GstTask" where
  "try_thread_stop thread =
     (if task_state thread = GST_TASK_STARTED then gst_task_stop thread else thread)"

text \<open>
  Pixels are \<open>guint8\<close>; the scoring engine's buffers hold \<open>float\<close>. Every 8-bit
  value is exactly representable, so the conversion is the embedding of the number.
  The \<open>gdouble\<close> score is a real number. A \<open>NULL\<close> pixel pointer is the empty
  buffer: every read through it is out of bounds.
\<close>

record GstVmafThreadHelper =
  vmaf_thread :: GstTask
  wait_frame :: GMutex
  wait_reading_complete :: GMutex
  check_error :: GMutex
  no_frames :: bool
  reading_correct :: bool
  score :: real
  error :: int
  sink_index :: nat
  original_ptr :: "8 word list"
  distorted_ptr :: "8 word list"
  frame_height :: int
  frame_width :: int

definition float_of_guint8 :: "8 word \<Rightarrow> real" where
  "float_of_guint8 p = real (unat p)"

definition g_mutex_lock :: "GMutex \<Rightarrow> fault + GMutex" where
  "g_mutex_lock m = (if m = Locked then Inl Blocked else Inr Locked)"

section \<open>The pull callback \<open>read_frame\<close>\<close>

text \<open>
  The callback's effects are recorded in program order: taking \<open>wait_frame\<close>, each
  store into the engine's two buffers, the store to \<open>reading_correct\<close> and the
  release of \<open>wait_reading_complete\<close>.
\<close>

datatype event =
    Lock_wait_frame
  | Write_ref nat real
  | Write_main nat real
  | Set_reading_correct bool
  | Unlock_wait_reading_complete

type_synonym read_bufs = "real list \<times> real list \<times> event list"

text \<open>
  One iteration of the inner loop body, at row \<open>i\<close> and column \<open>j\<close>; \<open>off\<close> is the
  distance of \<open>ref_ptr\<close> (and \<open>main_ptr\<close>) from the start of its buffer.
\<close>

definition copy_pixel ::
  "GstVmafThreadHelper \<Rightarrow> nat \<Rightarrow> nat \<Rightarrow> nat \<Rightarrow> read_bufs \<Rightarrow> fault + read_bufs" where
  "copy_pixel h off i j b =
     (case b of (rd, md, tr) \<Rightarrow>
        let k = i * nat (frame_width h) + j in
        if k < length (original_ptr h) \<and> off + j < length rd \<and>
           k < length (distorted_ptr h) \<and> off + j < length md
        then Inr (rd[off + j := float_of_guint8 (original_ptr h ! k)],
                  md[off + j := float_of_guint8 (distorted_ptr h ! k)],
                  tr @ [Write_ref (off + j) (float_of_guint8 (original_ptr h ! k)),
                        Write_main (off + j) (float_of_guint8 (distorted_ptr h ! k))])
        else Inl OutOfBounds)"

function read_cols ::
  "GstVmafThreadHelper \<Rightarrow> nat \<Rightarrow> nat \<Rightarrow> nat \<Rightarrow> read_bufs \<Rightarrow> fault + read_bufs" where
  "read_cols h off i j b =
     (if int j < frame_width h
      then (case copy_pixel h off i j b of
              Inl e \<Rightarrow> Inl e
            | Inr b' \<Rightarrow> read_cols h off i (Suc j) b')
      else Inr b)"
  by pat_completeness auto
termination
  by (relation "measure (\<lambda>(h, off, i, j, b). nat (frame_width h) - j)") auto

declare read_cols.simps [simp del]

function read_rows ::
  "GstVmafThreadHelper \<Rightarrow> nat \<Rightarrow> nat \<Rightarrow> nat \<Rightarrow> read_bufs \<Rightarrow> fault + read_bufs" where
  "read_rows h step i off b =
     (if int i < frame_height h
      then (case read_cols h off i 0 b of
              Inl e \<Rightarrow> Inl e
            | Inr b' \<Rightarrow> read_rows h step (Suc i) (off + step) b')
      else Inr b)"
  by pat_completeness auto
termination
  by (relation "measure (\<lambda>(h, step, i, off, b). nat (frame_height h) - i)") auto

declare read_rows.simps [simp del]

text \<open>
  \<open>stride / sizeof (*ref_data)\<close>: the \<open>int\<close> stride is converted to \<open>size_t\<close>
  (64 bits) and divided by 4.
\<close>

definition row_step :: "int \<Rightarrow> nat" where
  "row_step stride = nat ((stride mod 2 ^ 64) div 4)"

definition read_frame ::
  "real list \<Rightarrow> real list \<Rightarrow> real list \<Rightarrow> int \<Rightarrow> GstVmafThreadHelper \<Rightarrow>
     fault + (int \<times> real list \<times> real list \<times> GstVmafThreadHelper \<times> event list)" where
  "read_frame ref_data main_data temp_data stride helper =
     (case g_mutex_lock (wait_frame helper) of
        Inl e \<Rightarrow> Inl e
      | Inr m \<Rightarrow>
          let h1 = helper\<lparr>wait_frame := m\<rparr> in
          if \<not> no_frames h1
          then (case read_rows h1 (row_step stride) 0 0 (ref_data, main_data, [Lock_wait_frame]) of
                  Inl e \<Rightarrow> Inl e
                | Inr (rd, md, tr) \<Rightarrow>
                    Inr (0, rd, md,
                         h1\<lparr>reading_correct := True, wait_reading_complete := Unlocked\<rparr>,
                         tr @ [Set_reading_correct True, Unlock_wait_reading_complete]))
          else Inr (2, ref_data, main_data, h1\<lparr>reading_correct := False\<rparr>,
                    [Lock_wait_frame, Set_reading_correct False]))"

section \<open>Configuration and the scoring engine's interface\<close>

datatype GstVmafLogFmtEnum = JSON_LOG_FMT

datatype GstVmafPoolMethodEnum = MIN_POOL_METHOD | MEAN_POOL_METHOD | HARMONIC_MEAN_POOL_METHOD

datatype ScoreAggregateMethod = MINIMUM | MEAN | HARMONIC_MEAN

text \<open>
  The element's own fields. \<open>log_path\<close> is \<open>None\<close> for \<open>NULL\<close>; \<open>subsample\<close> and
  \<open>num_threads\<close> are \<open>guint\<close>. The helpers live in \<open>helper_struct_pointer\<close>.
\<close>

record GstVmaf =
  model_path :: string
  log_path :: "string option"
  log_fmt :: GstVmafLogFmtEnum
  vmaf_config_disable_clip :: bool
  vmaf_config_enable_transform :: bool
  vmaf_config_phone_model :: bool
  vmaf_config_psnr :: bool
  vmaf_config_ssim :: bool
  vmaf_config_ms_ssim :: bool
  pool_method :: GstVmafPoolMethodEnum
  num_threads :: nat
  subsample :: nat
  vmaf_config_conf_int :: bool
  helper_struct_pointer :: "GstVmafThreadHelper list"
  number_of_vmaf_threads :: int

text \<open>
  What the scoring engine hands back: its \<open>Result\<close> is a table from metric names to
  per-frame series, in the order \<open>get_keys\<close> lists them. The engine's run either
  throws or returns such a table; an exception is known by the \<open>catch\<close> clause of
  \<open>RunVMAF\<close> that takes it (\<open>std::runtime_error\<close>, \<open>std::logic_error\<close>, any other
  \<open>std::exception\<close>, anything else) and, for the first three, by its \<open>what()\<close>.
  The library routines the wrapper relies on but does not define are collected in
  \<open>libs\<close>: the pooling behind \<open>Result::get_score\<close>, the \<open>%f\<close> conversion of
  \<open>printf\<close>, and \<open>_get_file_name\<close>.
\<close>

type_synonym Result = "(string \<times> real list) list"

datatype cxx_exception =
    Runtime_error string
  | Logic_error string
  | Std_exception string
  | Unknown_exception

datatype engine_outcome = Throws cxx_exception | Returns Result

record libs =
  aggregate :: "ScoreAggregateMethod \<Rightarrow> real list \<Rightarrow> real"
  printf_f :: "real \<Rightarrow> string"
  get_file_name :: "string \<Rightarrow> string"

definition get_keys :: "Result \<Rightarrow> string list" where
  "get_keys r = map fst r"

definition has_scores :: "Result \<Rightarrow> string \<Rightarrow> bool" where
  "has_scores r k = (k \<in> set (get_keys r))"

definition get_scores :: "Result \<Rightarrow> string \<Rightarrow> real list option" where
  "get_scores r k = map_of r k"

definition get_score :: "libs \<Rightarrow> ScoreAggregateMethod \<Rightarrow> Result \<Rightarrow> string \<Rightarrow> real option" where
  "get_score X m r k = map_option (aggregate X m) (get_scores r k)"

text \<open>The pattern \<open>double a = 0.0; if (result.has_scores(k)) a = result.get_score(k);\<close>\<close>

definition score_if_present :: "libs \<Rightarrow> ScoreAggregateMethod \<Rightarrow> Result \<Rightarrow> string \<Rightarrow> real" where
  "score_if_present X m r k =
     (if has_scores r k then (case get_score X m r k of Some v \<Rightarrow> v | None \<Rightarrow> 0) else 0)"

definition setScoreAggregateMethod :: "GstVmafPoolMethodEnum \<Rightarrow> ScoreAggregateMethod" where
  "setScoreAggregateMethod pm =
     (case pm of
        MIN_POOL_METHOD \<Rightarrow> MINIMUM
      | MEAN_POOL_METHOD \<Rightarrow> MEAN
      | HARMONIC_MEAN_POOL_METHOD \<Rightarrow> HARMONIC_MEAN)"

definition VmafPoolMethodNames :: "GstVmafPoolMethodEnum \<Rightarrow> string" where
  "VmafPoolMethodNames pm =
     (case pm of
        MIN_POOL_METHOD \<Rightarrow> ''min''
      | MEAN_POOL_METHOD \<Rightarrow> ''mean''
      | HARMONIC_MEAN_POOL_METHOD \<Rightarrow> ''harmonic_mean'')"

definition BOOSTRAP_VMAF_MODEL_PREFIX :: string where
  "BOOSTRAP_VMAF_MODEL_PREFIX = ''vmaf_''"

section \<open>Console and report output\<close>

text \<open>Decimal rendering for \<open>%u\<close> and \<open>%d\<close>.\<close>

function show_nat :: "nat \<Rightarrow> string" where
  "show_nat n =
     (if n < 10 then [''0123456789'' ! n]
      else show_nat (n div 10) @ [''0123456789'' ! (n mod 10)])"
  by pat_completeness auto
termination
  by (relation "measure id") auto

declare show_nat.simps [simp del]

definition show_int :: "int \<Rightarrow> string" where
  "show_int i = (if i < 0 then ''-'' @ show_nat (nat (- i)) else show_nat (nat i))"

text \<open>\<open>std::string::find\<close> compared with \<open>npos\<close>: does \<open>p\<close> occur in the string?\<close>

fun find_str :: "string \<Rightarrow> string \<Rightarrow> bool" where
  "find_str p [] = (p = [])"
| "find_str p (c # cs) = (take (length p) (c # cs) = p \<or> find_str p cs)"

text \<open>
  The report file is the sequence of stream insertions made on \<open>log_file\<close>: a string
  literal of the source, a \<open>std::string\<close> value, an \<open>int\<close>, a \<open>size_t\<close>, a \<open>double\<close>,
  or \<open>std::endl\<close>.
\<close>

datatype chunk =
    C_lit string
  | C_str string
  | C_int int
  | C_size nat
  | C_double real
  | C_endl

text \<open>One console line \<open>"<label> score (%s) = %f\n"\<close>.\<close>

definition score_line :: "libs \<Rightarrow> string \<Rightarrow> GstVmafPoolMethodEnum \<Rightarrow> real \<Rightarrow> string" where
  "score_line X label pm v =
     label @ '' score ('' @ VmafPoolMethodNames pm @ '') = '' @ printf_f X v"

definition line_if_nonzero :: "libs \<Rightarrow> string \<Rightarrow> GstVmafPoolMethodEnum \<Rightarrow> real \<Rightarrow> string list" where
  "line_if_nonzero X label pm v = (if v \<noteq> 0 then [score_line X label pm v] else [])"

text \<open>
  The loop over \<open>result_keys\<close> that counts the bootstrap models, builds their
  comma-separated list and prints one line per model. The accumulator is
  (\<open>num_bootstrap_models\<close>, \<open>bootstrap_model_list_str\<close>, lines printed).
\<close>

fun bootstrap_loop ::
  "libs \<Rightarrow> ScoreAggregateMethod \<Rightarrow> GstVmafPoolMethodEnum \<Rightarrow> Result \<Rightarrow> string list \<Rightarrow>
     nat \<times> string \<times> string list \<Rightarrow> nat \<times> string \<times> string list" where
  "bootstrap_loop X m pm r [] acc = acc"
| "bootstrap_loop X m pm r (k # ks) (n, s, out) =
     (if find_str BOOSTRAP_VMAF_MODEL_PREFIX k
      then bootstrap_loop X m pm r ks
             (Suc n,
              s @ (if n = 0 then k @ '','' else if n = 1 then k else '','' @ k),
              out @ [''VMAF score ('' @ VmafPoolMethodNames pm @ ''), model '' @
                     show_nat (n + 1) @ '' = '' @
                     printf_f X (case get_score X m r k of Some v \<Rightarrow> v | None \<Rightarrow> 0)])
      else bootstrap_loop X m pm r ks (n, s, out))"

definition log_params ::
  "libs \<Rightarrow> string \<Rightarrow> int \<Rightarrow> int \<Rightarrow> int \<Rightarrow> nat \<Rightarrow> string \<Rightarrow> chunk list" where
  \<open>log_params X mpath width height n_subsample num_bootstrap_models bootstrap_model_list_str =
     [C_lit ''{'', C_endl,
      C_lit ''  "params":{'', C_endl,
      C_lit ''    "model":"'', C_str (get_file_name X mpath), C_lit ''",'', C_endl,
      C_lit ''    "scaledWidth":'', C_int width, C_lit '','', C_endl,
      C_lit ''    "scaledHeight":'', C_int height, C_lit '','', C_endl,
      C_lit ''    "subsample":'', C_int n_subsample, C_lit '','', C_endl,
      C_lit ''    "num_bootstrap_models":'', C_int (int num_bootstrap_models), C_lit '','', C_endl,
      C_lit ''    "bootstrap_model_list_str":"'', C_str bootstrap_model_list_str, C_lit ''"'', C_endl,
      C_lit ''  },'', C_endl]\<close>

primrec log_metrics_loop :: "string list \<Rightarrow> nat list \<Rightarrow> chunk list" where
  \<open>log_metrics_loop result_keys [] = []\<close>
| \<open>log_metrics_loop result_keys (j # js) =
     [C_lit ''    "'', C_str (result_keys ! j), C_lit ''"''] @
     (if j < length result_keys - 1 then [C_lit '',''] else []) @
     [C_endl] @ log_metrics_loop result_keys js\<close>

definition log_metrics :: "string list \<Rightarrow> chunk list" where
  \<open>log_metrics result_keys =
     [C_lit ''  "metrics":['', C_endl] @
     log_metrics_loop result_keys [0..<length result_keys] @
     [C_lit ''  ],'', C_endl]\<close>

text \<open>
  \<open>result.get_scores(key).at(i)\<close>: \<open>std::vector::at\<close> throws when the series is too
  short, and nothing in \<open>RunVMAF\<close> catches it there.
\<close>

definition score_at :: "Result \<Rightarrow> string \<Rightarrow> nat \<Rightarrow> fault + real" where
  "score_at r k i =
     (case get_scores r k of
        None \<Rightarrow> Inl Terminated
      | Some xs \<Rightarrow> if i < length xs then Inr (xs ! i) else Inl Terminated)"

primrec frame_metrics_loop :: "Result \<Rightarrow> string list \<Rightarrow> nat \<Rightarrow> nat list \<Rightarrow> fault + chunk list" where
  \<open>frame_metrics_loop r result_keys i [] = Inr []\<close>
| \<open>frame_metrics_loop r result_keys i (j # js) =
     (case score_at r (result_keys ! j) i of
        Inl e \<Rightarrow> Inl e
      | Inr v \<Rightarrow>
          (case frame_metrics_loop r result_keys i js of
             Inl e \<Rightarrow> Inl e
           | Inr cs \<Rightarrow>
               Inr ([C_lit ''        "'', C_str (result_keys ! j), C_lit ''":'', C_double v] @
                    (if j = length result_keys - 1 then [C_endl] else [C_lit '','', C_endl]) @
                    cs)))\<close>

text \<open>
  \<open>i_subsampled * n_subsample\<close> is computed in \<open>size_t\<close>: the \<open>int\<close> is converted
  to 64 bits unsigned and the product wraps.
\<close>

definition frame_num :: "nat \<Rightarrow> int \<Rightarrow> nat" where
  "frame_num i_subsampled n_subsample =
     nat ((int i_subsampled * (n_subsample mod 2 ^ 64)) mod 2 ^ 64)"

definition frameNum_label :: string where
  \<open>frameNum_label = ''      "frameNum":''\<close>

definition log_frame ::
  "Result \<Rightarrow> string list \<Rightarrow> int \<Rightarrow> nat \<Rightarrow> nat \<Rightarrow> fault + chunk list" where
  \<open>log_frame r result_keys n_subsample num_frames_subsampled i_subsampled =
     (case frame_metrics_loop r result_keys i_subsampled [0..<length result_keys] of
        Inl e \<Rightarrow> Inl e
      | Inr ms \<Rightarrow>
          Inr ([C_lit ''    {'', C_endl,
                C_lit frameNum_label, C_size (frame_num i_subsampled n_subsample), C_lit '','', C_endl,
                C_lit ''      "metrics":{'', C_endl] @
               ms @
               [C_lit ''      }'', C_endl] @
               (if i_subsampled = num_frames_subsampled - 1
                then [C_lit ''    }'', C_endl]
                else [C_lit ''    },'', C_endl])))\<close>

primrec log_frames_loop ::
  "Result \<Rightarrow> string list \<Rightarrow> int \<Rightarrow> nat \<Rightarrow> nat list \<Rightarrow> fault + chunk list" where
  "log_frames_loop r result_keys n_subsample num_frames_subsampled [] = Inr []"
| "log_frames_loop r result_keys n_subsample num_frames_subsampled (i # is) =
     (case log_frame r result_keys n_subsample num_frames_subsampled i of
        Inl e \<Rightarrow> Inl e
      | Inr c \<Rightarrow>
          (case log_frames_loop r result_keys n_subsample num_frames_subsampled is of
             Inl e \<Rightarrow> Inl e
           | Inr cs \<Rightarrow> Inr (c @ cs)))"

definition PSNR_label :: string where
  \<open>PSNR_label = ''  "PSNR score":''\<close>

definition SSIM_label :: string where
  \<open>SSIM_label = ''  "SSIM score":''\<close>

definition MS_SSIM_label :: string where
  \<open>MS_SSIM_label = ''  "MS-SSIM score":''\<close>

definition log_entry_if_nonzero :: "string \<Rightarrow> real \<Rightarrow> chunk list" where
  "log_entry_if_nonzero label v =
     (if v \<noteq> 0 then [C_lit '','', C_endl, C_lit label, C_double v] else [])"

definition log_aggregates :: "real \<Rightarrow> real \<Rightarrow> real \<Rightarrow> real \<Rightarrow> chunk list" where
  \<open>log_aggregates aggregate_vmaf aggregate_psnr aggregate_ssim aggregate_ms_ssim =
     [C_lit ''  "VMAF score":'', C_double aggregate_vmaf] @
     log_entry_if_nonzero PSNR_label aggregate_psnr @
     log_entry_if_nonzero SSIM_label aggregate_ssim @
     log_entry_if_nonzero MS_SSIM_label aggregate_ms_ssim @
     [C_endl, C_lit ''}'', C_endl]\<close>

section \<open>\<open>RunVMAF\<close>\<close>

text \<open>\<open>int n_subsample = ...->subsample\<close>: a \<open>guint\<close> stored into an \<open>int\<close>.\<close>

definition int_of_guint :: "nat \<Rightarrow> int" where
  "int_of_guint u =
     (if int u mod 2 ^ 32 < 2 ^ 31 then int u mod 2 ^ 32 else int u mod 2 ^ 32 - 2 ^ 32)"

text \<open>The \<open>printf\<close> calls after a run that returned, up to the bootstrap loop.\<close>

definition RunVMAF_console ::
  "libs \<Rightarrow> ScoreAggregateMethod \<Rightarrow> GstVmafPoolMethodEnum \<Rightarrow> Result \<Rightarrow> real \<Rightarrow> string list" where
  "RunVMAF_console X m pm r aggregate_vmaf =
     [score_line X ''VMAF'' pm aggregate_vmaf] @
     line_if_nonzero X ''Bagging'' pm (score_if_present X m r ''bagging'') @
     line_if_nonzero X ''StdDev'' pm (score_if_present X m r ''stddev'') @
     line_if_nonzero X ''CI95_low'' pm (score_if_present X m r ''ci95_low'') @
     line_if_nonzero X ''CI95_high'' pm (score_if_present X m r ''ci95_high'') @
     line_if_nonzero X ''PSNR'' pm (score_if_present X m r ''psnr'') @
     line_if_nonzero X ''SSIM'' pm (score_if_present X m r ''ssim'') @
     line_if_nonzero X ''MS-SSIM'' pm (score_if_present X m r ''ms_ssim'')"

text \<open>The block guarded by \<open>log_path != NULL && log_fmt == JSON_LOG_FMT\<close>.\<close>

definition RunVMAF_log ::
  "libs \<Rightarrow> GstVmaf \<Rightarrow> ScoreAggregateMethod \<Rightarrow> Result \<Rightarrow> int \<Rightarrow> int \<Rightarrow> real \<Rightarrow> nat \<Rightarrow> string \<Rightarrow>
     fault + chunk list" where
  \<open>RunVMAF_log X self m r width height aggregate_vmaf num_bootstrap_models bootstrap_model_list_str =
     (case get_scores r ''vmaf'' of
        None \<Rightarrow> Inl Terminated
      | Some vs \<Rightarrow>
          let num_frames_subsampled = length vs;
              n_subsample = int_of_guint (subsample self);
              result_keys = get_keys r
          in (case log_frames_loop r result_keys n_subsample num_frames_subsampled
                     [0..<num_frames_subsampled] of
                Inl e \<Rightarrow> Inl e
              | Inr frames \<Rightarrow>
                  Inr (log_params X (model_path self) width height n_subsample
                         num_bootstrap_models bootstrap_model_list_str @
                       log_metrics result_keys @
                       [C_lit ''  "frames":['', C_endl] @
                       frames @
                       [C_lit ''  ],'', C_endl] @
                       log_aggregates aggregate_vmaf
                         (score_if_present X m r ''psnr'')
                         (score_if_present X m r ''ssim'')
                         (score_if_present X m r ''ms_ssim''))))\<close>

text \<open>
  \<open>RunVMAF\<close> receives what the \<open>try\<close> block produced (the asset, the runner and
  its run, which calls \<open>read_frame\<close>): the run threw, or returned a \<open>Result\<close>. It
  yields its return code, the helper, the lines printed and the report file written
  (if any). \<open>result.get_score("vmaf")\<close> stands outside the \<open>try\<close> block: when the
  table has no such series the exception is not caught.
\<close>

definition RunVMAF ::
  "libs \<Rightarrow> GstVmaf \<Rightarrow> engine_outcome \<Rightarrow> GstVmafThreadHelper \<Rightarrow>
     fault + (int \<times> GstVmafThreadHelper \<times> string list \<times> chunk list option)" where
  "RunVMAF X self outcome thread_helper =
     (case outcome of
        Throws (Runtime_error w) \<Rightarrow>
          Inr (- 3, thread_helper, [''Caught runtime_error: '' @ w], None)
      | Throws (Logic_error w) \<Rightarrow>
          Inr (- 4, thread_helper, [''Caught logic_error: '' @ w], None)
      | Throws (Std_exception w) \<Rightarrow>
          Inr (- 5, thread_helper, [''Caught exception: '' @ w], None)
      | Throws Unknown_exception \<Rightarrow>
          Inr (- 6, thread_helper, [''Unknown exception!''], None)
      | Returns result \<Rightarrow>
          let m = setScoreAggregateMethod (pool_method self) in
          (case get_score X m result ''vmaf'' of
             None \<Rightarrow> Inl Terminated
           | Some aggregate_vmaf \<Rightarrow>
               let h' = thread_helper\<lparr>score := aggregate_vmaf, error := 0\<rparr> in
               (case bootstrap_loop X m (pool_method self) result (get_keys result)
                       (0, [], RunVMAF_console X m (pool_method self) result aggregate_vmaf) of
                  (num_bootstrap_models, bootstrap_model_list_str, console) \<Rightarrow>
                    if log_path self \<noteq> None \<and> log_fmt self = JSON_LOG_FMT
                    then (case RunVMAF_log X self m result (frame_width thread_helper)
                                 (frame_height thread_helper) aggregate_vmaf
                                 num_bootstrap_models bootstrap_model_list_str of
                            Inl e \<Rightarrow> Inl e
                          | Inr report \<Rightarrow> Inr (0, h', console, Some report))
                    else Inr (0, h', console, None))))"

section \<open>The scoring engine's run\<close>

text \<open>
  A pull is what one call of the callback handed back to the engine: its return code
  (0 for a frame, as \<open>read_frame\<close> returns it) and the two buffers it filled. A frame
  metric scores one frame pair.
\<close>

type_synonym pull = "int \<times> real list \<times> real list"

type_synonym frame_metric = "real list \<Rightarrow> real list \<Rightarrow> real"

text \<open>
  Modelled from the spec: the pull loop of the scoring engine's run routine
  (\<open>IVmafQualityRunner::run\<close>), which \<open>RunVMAF\<close> calls and whose code is not among the
  sources. The spec has the engine obtain each successive frame pair through the
  callback until the callback reports the end of the stream. \<open>pulled_frames\<close> are the
  frame pairs obtained before the first pull that delivers no frame; their number is
  the total number of frames of the run.
\<close>

fun pulled_frames :: "pull list \<Rightarrow> (real list \<times> real list) list" where
  "pulled_frames [] = []"
| "pulled_frames ((ret, ref_data, main_data) # ps) =
     (if ret = 0 then (ref_data, main_data) # pulled_frames ps else [])"

text \<open>
  Modelled from the spec: the subsampling stride of the scoring engine, "the interval
  (in frames) at which the metric is actually computed; frames not on the stride are
  skipped", the engine processing "every Nth frame" from the first one on. The stride
  is the \<open>int\<close> that \<open>RunVMAF\<close> hands to the run.
\<close>

definition on_stride :: "int \<Rightarrow> 'a list \<Rightarrow> 'a list" where
  "on_stride n_subsample frames =
     map (\<lambda>k. frames ! k) (filter (\<lambda>k. int k mod n_subsample = 0) [0..<length frames])"

text \<open>
  Modelled from the spec: what the run of the scoring engine returns, a per-frame
  series for each of its metrics with one value "per processed frame, subject to a
  subsampling stride". The metrics are given by name, each with the function that
  scores one frame pair.
\<close>

definition engine_run :: "(string \<times> frame_metric) list \<Rightarrow> int \<Rightarrow> pull list \<Rightarrow> engine_outcome" where
  "engine_run metrics n_subsample pulls =
     Returns (map (\<lambda>(name, f).
                     (name, map (\<lambda>(ref_data, main_data). f ref_data main_data)
                              (on_stride n_subsample (pulled_frames pulls))))
                  metrics)"

section \<open>The task function \<open>vmaf_thread_call\<close>\<close>

text \<open>
  The invocation is placed at the moment the engine's run ends, with \<open>outcome\<close> what
  the run produced. It yields the helper, the lines printed and the report written.
  When the helper already holds an error the engine is not run and \<open>outcome\<close> is not
  looked at.
\<close>

definition vmaf_thread_call ::
  "libs \<Rightarrow> GstVmaf \<Rightarrow> engine_outcome \<Rightarrow> GstVmafThreadHelper \<Rightarrow>
     fault + (GstVmafThreadHelper \<times> string list \<times> chunk list option)" where
  "vmaf_thread_call X self outcome helper =
     (case g_mutex_lock (check_error helper) of
        Inl e \<Rightarrow> Inl e
      | Inr m \<Rightarrow>
          let h0 = helper\<lparr>check_error := m\<rparr>;
              thread_is_stopped = (error h0 \<noteq> 0);
              h1 = h0\<lparr>check_error := Unlocked\<rparr>
          in if thread_is_stopped then Inr (h1, [], None)
             else (case RunVMAF X self outcome h1 of
                     Inl e \<Rightarrow> Inl e
                   | Inr (err, h2, console, report) \<Rightarrow>
                       (case g_mutex_lock (check_error h2) of
                          Inl e \<Rightarrow> Inl e
                        | Inr m' \<Rightarrow>
                            let h3 = h2\<lparr>check_error := m', error := err\<rparr>;
                                h4 = h3\<lparr>check_error := Unlocked\<rparr>;
                                h5 = h4\<lparr>wait_reading_complete := Unlocked\<rparr>
                            in Inr (h5,
                                    console @
                                    [if error h5 \<noteq> 0
                                     then ''Error sink_'' @ show_nat (sink_index h5) @ '': '' @
                                          show_int (error h5)
                                     else ''VMAF sink_'' @ show_nat (sink_index h5) @ '': '' @
                                          printf_f X (score h5)],
                                    report))))"

section \<open>The worker thread seen from the pipeline thread\<close>

text \<open>
  While the pipeline thread waits inside \<open>compare_frames\<close>, the stream's worker
  thread runs: the engine calls \<open>read_frame\<close> with its buffers, or its run ends and
  the task function finishes. A worker that blocks makes no further step.
\<close>

datatype worker_action =
    Engine_reads "real list" "real list" int
  | Run_ends engine_outcome

definition worker_step ::
  "libs \<Rightarrow> GstVmaf \<Rightarrow> worker_action \<Rightarrow> GstVmafThreadHelper \<Rightarrow> fault + GstVmafThreadHelper" where
  "worker_step X self a h =
     (case a of
        Engine_reads ref_data main_data stride \<Rightarrow>
          (case read_frame ref_data main_data [] stride h of
             Inl e \<Rightarrow> Inl e
           | Inr (ret, rd, md, h', tr) \<Rightarrow> Inr h')
      | Run_ends outcome \<Rightarrow>
          (case vmaf_thread_call X self outcome h of
             Inl e \<Rightarrow> Inl e
           | Inr (h', console, report) \<Rightarrow> Inr h'))"

fun run_worker ::
  "libs \<Rightarrow> GstVmaf \<Rightarrow> worker_action list \<Rightarrow> GstVmafThreadHelper \<Rightarrow> fault + GstVmafThreadHelper" where
  "run_worker X self [] h = Inr h"
| "run_worker X self (a # as) h =
     (case worker_step X self a h of
        Inl Blocked \<Rightarrow> Inr h
      | Inl e \<Rightarrow> Inl e
      | Inr h' \<Rightarrow> run_worker X self as h')"

section \<open>\<open>compare_frames\<close>\<close>

record GstVideoFrame =
  info_width :: int
  info_height :: int
  buffer :: "8 word list"

text \<open>
  Every access of \<open>compare_frames\<close> goes through
  \<open>self->helper_struct_pointer[stream_index]\<close>; \<open>compare_frames_helper\<close> is the body
  on that helper. \<open>ws\<close> is what the worker does between the release of \<open>wait_frame\<close>
  and the acquisition of \<open>wait_reading_complete\<close>. The result is the returned
  \<open>gboolean\<close>, the helper and the output buffer.
\<close>

definition compare_frames_helper ::
  "libs \<Rightarrow> GstVmaf \<Rightarrow> worker_action list \<Rightarrow> GstVideoFrame \<Rightarrow> GstVideoFrame \<Rightarrow> 8 word list \<Rightarrow>
     GstVmafThreadHelper \<Rightarrow> fault + (bool \<times> GstVmafThreadHelper \<times> 8 word list)" where
  "compare_frames_helper X self ws ref cmp outbuf h =
     (let h1 = (if frame_width h = 0 \<or> frame_height h = 0
                then h\<lparr>frame_width := info_width ref,
                       frame_height := info_height ref,
                       vmaf_thread := gst_task_start (vmaf_thread h)\<rparr>
                else h)
      in (case g_mutex_lock (check_error h1) of
            Inl e \<Rightarrow> Inl e
          | Inr m \<Rightarrow>
              (let h2 = h1\<lparr>check_error := m\<rparr> in
               if error h2 \<noteq> 0
               then Inr (False, h2\<lparr>vmaf_thread := try_thread_stop (vmaf_thread h2)\<rparr>, outbuf)
               else
                 (let h3 = h2\<lparr>check_error := Unlocked,
                              reading_correct := False,
                              original_ptr := buffer ref,
                              distorted_ptr := buffer cmp,
                              wait_frame := Unlocked\<rparr>
                  in (case run_worker X self ws h3 of
                        Inl e \<Rightarrow> Inl e
                      | Inr h4 \<Rightarrow>
                          (case g_mutex_lock (wait_reading_complete h4) of
                             Inl e \<Rightarrow> Inl e
                           | Inr m' \<Rightarrow>
                               (let h5 = h4\<lparr>wait_reading_complete := m'\<rparr> in
                                if reading_correct h5
                                then (if length (buffer ref) \<le> length outbuf
                                      then Inr (True, h5,
                                                buffer ref @ drop (length (buffer ref)) outbuf)
                                      else Inl OutOfBounds)
                                else (case g_mutex_lock (check_error h5) of
                                        Inl e \<Rightarrow> Inl e
                                      | Inr m'' \<Rightarrow>
                                          (let h6 = h5\<lparr>check_error := m''\<rparr>;
                                               h7 = (if error h6 \<noteq> 0
                                                     then h6\<lparr>vmaf_thread :=
                                                               try_thread_stop (vmaf_thread h6)\<rparr>
                                                     else h6)
                                           in Inr (False, h7\<lparr>check_error := Unlocked\<rparr>,
                                                   outbuf))))))))))"

definition compare_frames ::
  "libs \<Rightarrow> GstVmaf \<Rightarrow> worker_action list \<Rightarrow> GstVideoFrame \<Rightarrow> GstVideoFrame \<Rightarrow> 8 word list \<Rightarrow>
     nat \<Rightarrow> fault + (bool \<times> GstVmaf \<times> 8 word list)" where
  "compare_frames X self ws ref cmp outbuf stream_index =
     (if stream_index < length (helper_struct_pointer self)
      then (case compare_frames_helper X self ws ref cmp outbuf
                   (helper_struct_pointer self ! stream_index) of
              Inl e \<Rightarrow> Inl e
            | Inr (result, h', outbuf') \<Rightarrow>
                Inr (result,
                     self\<lparr>helper_struct_pointer :=
                            (helper_struct_pointer self)[stream_index := h']\<rparr>,
                     outbuf'))
      else Inl OutOfBounds)"

section \<open>\<open>gst_vmaf_aggregate_frames\<close>\<close>

datatype GstFlowReturn = GST_FLOW_OK | GST_FLOW_ERROR

record GstMessage =
  structure_name :: string
  structure_fields :: "(string \<times> nat) list"

text \<open>
  The loop over \<open>sinkpads\<close>: each pad contributes its prepared frame, or \<open>None\<close> when
  it has none. \<open>env\<close> gives, per stream index, what that stream's worker does while
  the pipeline thread waits for it. \<open>res &= compare_frames (...)\<close> evaluates the call
  whatever \<open>res\<close> holds.
\<close>

fun aggregate_loop ::
  "libs \<Rightarrow> (nat \<Rightarrow> worker_action list) \<Rightarrow> GstVideoFrame option list \<Rightarrow>
     GstVideoFrame option \<Rightarrow> bool \<Rightarrow> nat \<Rightarrow> GstVmaf \<Rightarrow> 8 word list \<Rightarrow>
     fault + (bool \<times> GstVmaf \<times> 8 word list)" where
  "aggregate_loop X env [] ref_frame res stream_index self outbuf = Inr (res, self, outbuf)"
| "aggregate_loop X env (prepared_frame # l) ref_frame res stream_index self outbuf =
     (case prepared_frame of
        None \<Rightarrow> aggregate_loop X env l ref_frame res stream_index self outbuf
      | Some f \<Rightarrow>
          (case ref_frame of
             None \<Rightarrow> aggregate_loop X env l (Some f) res stream_index self outbuf
           | Some ref \<Rightarrow>
               (case compare_frames X self (env stream_index) ref f outbuf stream_index of
                  Inl e \<Rightarrow> Inl e
                | Inr (r, self', outbuf') \<Rightarrow>
                    aggregate_loop X env l ref_frame (res \<and> r) (Suc stream_index) self' outbuf')))"

text \<open>
  The result is the flow return, the element, the output buffer and the messages
  posted on the bus.
\<close>

definition gst_vmaf_aggregate_frames ::
  "libs \<Rightarrow> (nat \<Rightarrow> worker_action list) \<Rightarrow> GstVmaf \<Rightarrow> GstVideoFrame option list \<Rightarrow>
     8 word list \<Rightarrow> nat \<Rightarrow> fault + (GstFlowReturn \<times> GstVmaf \<times> 8 word list \<times> GstMessage list)" where
  "gst_vmaf_aggregate_frames X env self sinkpads outbuf position =
     (case aggregate_loop X env sinkpads None True 0 self outbuf of
        Inl e \<Rightarrow> Inl e
      | Inr (res, self', outbuf') \<Rightarrow>
          if \<not> res then Inr (GST_FLOW_ERROR, self', outbuf', [])
          else Inr (GST_FLOW_OK, self', outbuf',
                    [\<lparr>structure_name = ''VMAF'', structure_fields = [(''time'', position)]\<rparr>]))"

text \<open>
  The cycle as the specification words it: every comparison frame is dispatched, in
  pad order, to the stream of its index, and the outcomes are collected.
\<close>

fun dispatch_every_stream ::
  "libs \<Rightarrow> (nat \<Rightarrow> worker_action list) \<Rightarrow> GstVideoFrame \<Rightarrow> GstVideoFrame list \<Rightarrow> nat \<Rightarrow>
     GstVmaf \<Rightarrow> 8 word list \<Rightarrow> fault + (bool list \<times> GstVmaf \<times> 8 word list)" where
  "dispatch_every_stream X env ref [] k self outbuf = Inr ([], self, outbuf)"
| "dispatch_every_stream X env ref (c # cs) k self outbuf =
     (case compare_frames X self (env k) ref c outbuf k of
        Inl e \<Rightarrow> Inl e
      | Inr (r, self', outbuf') \<Rightarrow>
          (case dispatch_every_stream X env ref cs (Suc k) self' outbuf' of
             Inl e \<Rightarrow> Inl e
           | Inr (rs, self'', outbuf'') \<Rightarrow> Inr (r # rs, self'', outbuf'')))"

definition prepared_frames :: "GstVideoFrame option list \<Rightarrow> GstVideoFrame list" where
  "prepared_frames sinkpads = map the (filter (\<lambda>p. p \<noteq> None) sinkpads)"

section \<open>Activation and deactivation\<close>

text \<open>The body of the loop of \<open>vmaf_threads_open\<close> for index \<open>i\<close>.\<close>

definition helper_init :: "nat \<Rightarrow> GstVmafThreadHelper" where
  "helper_init i =
     \<lparr>vmaf_thread = gst_task_new,
      wait_frame = Locked,
      wait_reading_complete = Locked,
      check_error = Unlocked,
      no_frames = False,
      reading_correct = False,
      score = - 1,
      error = 0,
      sink_index = i,
      original_ptr = [],
      distorted_ptr = [],
      frame_height = 0,
      frame_width = 0\<rparr>"

text \<open>
  With no sink pad at all the count becomes \<open>-1\<close> and the size handed to
  \<open>g_malloc\<close> wraps to nearly the whole address space; \<open>g_malloc\<close> aborts.
\<close>

definition vmaf_threads_open :: "nat \<Rightarrow> GstVmaf \<Rightarrow> fault + GstVmaf" where
  "vmaf_threads_open n_sinkpads self =
     (let n = int n_sinkpads - 1 in
      if n < 0 then Inl Terminated
      else Inr (self\<lparr>number_of_vmaf_threads := n,
                     helper_struct_pointer := map helper_init [0..<nat n]\<rparr>))"

text \<open>
  The first loop of \<open>vmaf_threads_close\<close>, on one helper: \<open>no_frames\<close> is set, then
  \<open>g_mutex_trylock\<close> followed by \<open>g_mutex_unlock\<close> leaves \<open>wait_frame\<close> unlocked
  whatever it was.
\<close>

definition close_signal :: "GstVmafThreadHelper \<Rightarrow> GstVmafThreadHelper" where
  "close_signal h = h\<lparr>no_frames := True, wait_frame := Unlocked\<rparr>"

section \<open>Histories of one helper\<close>

text \<open>
  Everything the element does to one helper after activation is one of: a dispatch by
  the pipeline thread (with the worker's steps during its wait), a step of the worker
  outside such a wait, or the signal of deactivation.
\<close>

datatype action =
    Dispatch "worker_action list" GstVideoFrame GstVideoFrame "8 word list"
  | Worker worker_action
  | Close_signal

definition helper_step ::
  "libs \<Rightarrow> GstVmaf \<Rightarrow> action \<Rightarrow> GstVmafThreadHelper \<Rightarrow> fault + GstVmafThreadHelper" where
  "helper_step X self a h =
     (case a of
        Dispatch ws ref cmp outbuf \<Rightarrow>
          (case compare_frames_helper X self ws ref cmp outbuf h of
             Inl e \<Rightarrow> Inl e
           | Inr (r, h', outbuf') \<Rightarrow> Inr h')
      | Worker w \<Rightarrow> worker_step X self w h
      | Close_signal \<Rightarrow> Inr (close_signal h))"

fun run_actions ::
  "libs \<Rightarrow> GstVmaf \<Rightarrow> action list \<Rightarrow> GstVmafThreadHelper \<Rightarrow> fault + GstVmafThreadHelper" where
  "run_actions X self [] h = Inr h"
| "run_actions X self (a # as) h =
     (case helper_step X self a h of
        Inl e \<Rightarrow> Inl e
      | Inr h' \<Rightarrow> run_actions X self as h')"

text \<open>The engine runs that end during an action, with what each produced.\<close>

fun worker_outcomes :: "worker_action \<Rightarrow> engine_outcome list" where
  "worker_outcomes (Engine_reads rd md stride) = []"
| "worker_outcomes (Run_ends outcome) = [outcome]"

fun action_outcomes :: "action \<Rightarrow> engine_outcome list" where
  "action_outcomes (Dispatch ws ref cmp outbuf) = concat (map worker_outcomes ws)"
| "action_outcomes (Worker w) = worker_outcomes w"
| "action_outcomes Close_signal = []"

fun is_dispatch :: "action \<Rightarrow> bool" where
  "is_dispatch (Dispatch ws ref cmp outbuf) = True"
| "is_dispatch a = False"

fun returned :: "engine_outcome \<Rightarrow> bool" where
  "returned (Returns r) = True"
| "returned (Throws e) = False"

section \<open>Readers of the output\<close>

fun is_write :: "event \<Rightarrow> bool" where
  "is_write (Write_ref k v) = True"
| "is_write (Write_main k v) = True"
| "is_write e = False"

definition pixel_writes :: "GstVmafThreadHelper \<Rightarrow> nat \<Rightarrow> nat \<Rightarrow> nat \<Rightarrow> event list" where
  "pixel_writes h off i j =
     [Write_ref (off + j) (float_of_guint8 (original_ptr h ! (i * nat (frame_width h) + j))),
      Write_main (off + j) (float_of_guint8 (distorted_ptr h ! (i * nat (frame_width h) + j)))]"

text \<open>The frame numbers of a report: each \<open>size_t\<close> written right after the label.\<close>

fun frame_numbers :: "chunk list \<Rightarrow> nat list" where
  "frame_numbers (C_lit s # C_size n # cs) =
     (if s = frameNum_label then n # frame_numbers cs else frame_numbers cs)"
| "frame_numbers (c # cs) = frame_numbers cs"
| "frame_numbers [] = []"

section \<open>Concrete inputs\<close>

text \<open>
  A helper to which a 2 by 1 frame pair has just been submitted: geometry recorded,
  pixel pointers set, \<open>wait_frame\<close> released.
\<close>

definition ready_helper :: GstVmafThreadHelper where
  "ready_helper =
     (helper_init 0)\<lparr>frame_width := 2, frame_height := 1,
                      original_ptr := [1, 2], distorted_ptr := [3, 4],
                      wait_frame := Unlocked\<rparr>"

text \<open>
  The element as \<open>gst_vmaf_init\<close> leaves it: the default settings, no helper
  allocated yet.
\<close>

definition gst_vmaf_init :: GstVmaf where
  "gst_vmaf_init =
     \<lparr>model_path = ''/usr/local/share/model/vmaf_v0.6.1.pkl'',
      log_path = None,
      log_fmt = JSON_LOG_FMT,
      vmaf_config_disable_clip = False,
      vmaf_config_enable_transform = False,
      vmaf_config_phone_model = False,
      vmaf_config_psnr = False,
      vmaf_config_ssim = False,
      vmaf_config_ms_ssim = False,
      pool_method = MEAN_POOL_METHOD,
      num_threads = 0,
      subsample = 1,
      vmaf_config_conf_int = False,
      helper_struct_pointer = [],
      number_of_vmaf_threads = 0\<rparr>"

text \<open>
  A stand-in for the library routines, to run the model on concrete inputs: pooling
  is the arithmetic mean whatever the method, \<open>%f\<close> prints the integer part, and a
  path is its own file name.
\<close>

definition stub_libs :: libs where
  "stub_libs =
     \<lparr>aggregate = (\<lambda>m xs. sum_list xs / real (length xs)),
      printf_f = (\<lambda>v. show_int \<lfloor>v\<rfloor>),
      get_file_name = (\<lambda>s. s)\<rparr>"

definition ref_2x1 :: GstVideoFrame where
  "ref_2x1 = \<lparr>info_width = 2, info_height = 1, buffer = [1, 2]\<rparr>"

definition cmp_2x1 :: GstVideoFrame where
  "cmp_2x1 = \<lparr>info_width = 2, info_height = 1, buffer = [3, 4]\<rparr>"

definition ref_3x1 :: GstVideoFrame where
  "ref_3x1 = \<lparr>info_width = 3, info_height = 1, buffer = [5, 6, 7]\<rparr>"

definition cmp_1x2 :: GstVideoFrame where
  "cmp_1x2 = \<lparr>info_width = 1, info_height = 2, buffer = [3, 4]\<rparr>"

text \<open>The recorded geometry and the number of starts of the helper's task.\<close>

definition geom :: "GstVmafThreadHelper \<Rightarrow> int \<times> int \<times> nat" where
  "geom h = (frame_width h, frame_height h, start_calls (vmaf_thread h))"

text \<open>
  The helper of stream 0 after a first dispatch during which the engine's run threw
  a \<open>std::runtime_error\<close>; the helper of stream \<open>i\<close> after a first dispatch that the
  worker served; an element with one errored stream, and one with two fresh streams.
\<close>

definition errored_helper :: GstVmafThreadHelper where
  "errored_helper =
     \<lparr>vmaf_thread = \<lparr>task_state = GST_TASK_STOPPED, start_calls = 1\<rparr>,
      wait_frame = Unlocked, wait_reading_complete = Locked,
      check_error = Unlocked, no_frames = False, reading_correct = False,
      score = - 1, error = - 3, sink_index = 0, original_ptr = [1, 2],
      distorted_ptr = [3, 4], frame_height = 1, frame_width = 2\<rparr>"

definition served_helper :: "nat \<Rightarrow> GstVmafThreadHelper" where
  "served_helper i =
     \<lparr>vmaf_thread = \<lparr>task_state = GST_TASK_STARTED, start_calls = 1\<rparr>,
      wait_frame = Locked, wait_reading_complete = Locked,
      check_error = Unlocked, no_frames = False, reading_correct = True,
      score = - 1, error = 0, sink_index = i, original_ptr = [1, 2],
      distorted_ptr = [3, 4], frame_height = 1, frame_width = 2\<rparr>"

definition errored_vmaf :: GstVmaf where
  "errored_vmaf =
     gst_vmaf_init\<lparr>helper_struct_pointer := [errored_helper], number_of_vmaf_threads := 1\<rparr>"

definition two_streams :: GstVmaf where
  "two_streams =
     gst_vmaf_init\<lparr>helper_struct_pointer := [helper_init 0, helper_init 1],
                    number_of_vmaf_threads := 2\<rparr>"

text \<open>
  Two behaviours of the workers during a cycle: the run of stream 0 throws while the
  other workers read their frame; or every worker reads its frame.
\<close>

definition first_fails :: "nat \<Rightarrow> worker_action list" where
  "first_fails k =
     (if k = 0 then [Run_ends (Throws (Runtime_error ''boom''))]
      else [Engine_reads [0, 0] [0, 0] 8])"

definition all_read :: "nat \<Rightarrow> worker_action list" where
  "all_read k = [Engine_reads [0, 0] [0, 0] 8]"

text \<open>
  Three sink pads with a prepared frame each, the first being the reference; the
  element after a cycle in which the run of stream 0 threw; and the element after the
  cycle that followed it.
\<close>

definition three_pads :: "GstVideoFrame option list" where
  "three_pads = [Some ref_2x1, Some cmp_2x1, Some cmp_1x2]"

definition after_failed_cycle :: GstVmaf where
  "after_failed_cycle =
     two_streams\<lparr>helper_struct_pointer := [errored_helper, served_helper 1]\<rparr>"

definition after_early_return :: GstVmaf where
  "after_early_return =
     two_streams\<lparr>helper_struct_pointer :=
                    [errored_helper\<lparr>check_error := Locked\<rparr>, served_helper 1]\<rparr>"

definition one_stream :: GstVmaf where
  "one_stream =
     gst_vmaf_init\<lparr>helper_struct_pointer := [helper_init 0], number_of_vmaf_threads := 1\<rparr>"

text \<open>
  A run with a report: stride 3 over a stream of 10 frames, for which the engine hands
  back four scores; and the report expected for it.
\<close>

definition logging_vmaf :: GstVmaf where
  "logging_vmaf = gst_vmaf_init\<lparr>log_path := Some ''log.json'', subsample := 3\<rparr>"

definition four_scores :: Result where
  "four_scores = [(''vmaf'', [90, 92, 94, 96])]"

definition report_stride3 :: "chunk list" where
  \<open>report_stride3 =
     [C_lit ''{'', C_endl, C_lit ''  "params":{'', C_endl, C_lit ''    "model":"'',
      C_str ''/usr/local/share/model/vmaf_v0.6.1.pkl'', C_lit ''",'', C_endl,
      C_lit ''    "scaledWidth":'', C_int 2, C_lit '','', C_endl,
      C_lit ''    "scaledHeight":'', C_int 1, C_lit '','', C_endl, C_lit ''    "subsample":'',
      C_int 3, C_lit '','', C_endl, C_lit ''    "num_bootstrap_models":'', C_int 0,
      C_lit '','', C_endl, C_lit ''    "bootstrap_model_list_str":"'', C_str [], C_lit ''"'',
      C_endl, C_lit ''  },'', C_endl, C_lit ''  "metrics":['', C_endl, C_lit ''    "'',
      C_str ''vmaf'', C_lit ''"'', C_endl, C_lit ''  ],'', C_endl, C_lit ''  "frames":['',
      C_endl, C_lit ''    {'', C_endl, C_lit ''      "frameNum":'', C_size 0, C_lit '','',
      C_endl, C_lit ''      "metrics":{'', C_endl, C_lit ''        "'', C_str ''vmaf'',
      C_lit ''":'', C_double 90, C_endl, C_lit ''      }'', C_endl, C_lit ''    },'', C_endl,
      C_lit ''    {'', C_endl, C_lit ''      "frameNum":'', C_size 3, C_lit '','', C_endl,
      C_lit ''      "metrics":{'', C_endl, C_lit ''        "'', C_str ''vmaf'', C_lit ''":'',
      C_double 92, C_endl, C_lit ''      }'', C_endl, C_lit ''    },'', C_endl,
      C_lit ''    {'', C_endl, C_lit ''      "frameNum":'', C_size 6, C_lit '','', C_endl,
      C_lit ''      "metrics":{'', C_endl, C_lit ''        "'', C_str ''vmaf'', C_lit ''":'',
      C_double 94, C_endl, C_lit ''      }'', C_endl, C_lit ''    },'', C_endl,
      C_lit ''    {'', C_endl, C_lit ''      "frameNum":'', C_size 9, C_lit '','', C_endl,
      C_lit ''      "metrics":{'', C_endl, C_lit ''        "'', C_str ''vmaf'', C_lit ''":'',
      C_double 96, C_endl, C_lit ''      }'', C_endl, C_lit ''    }'', C_endl, C_lit ''  ],'',
      C_endl, C_lit ''  "VMAF score":'', C_double 93, C_endl, C_lit ''}'', C_endl]\<close>

text \<open>
  A stream of 10 frames as the engine pulls it, frame \<open>k\<close> holding the pixel value
  \<open>k\<close> first, followed by the pull that reports the end of the stream; and an engine
  with the single metric \<open>vmaf\<close>, for which the stride 3 gives the four scores above.
\<close>

definition ten_pulls :: "pull list" where
  "ten_pulls = map (\<lambda>k. (0, [real k, 2], [3, 4])) [0..<10] @ [(2, [9, 2], [3, 4])]"

definition stub_metrics :: "(string \<times> frame_metric) list" where
  "stub_metrics = [(''vmaf'', \<lambda>ref_data main_data. 90 + 2 * hd ref_data / 3)]"

fun is_size :: "chunk \<Rightarrow> bool" where
  "is_size (C_size n) = True"
| "is_size c = False"



text \<open>The aggregate section of a report with a PSNR aggregate of 30.\<close>

definition psnr_entry_written :: "chunk list" where
  \<open>psnr_entry_written =
     [C_lit ''  "VMAF score":'', C_double 93, C_lit '','', C_endl,
      C_lit ''  "PSNR score":'', C_double 30, C_endl, C_lit ''}'', C_endl]\<close>

text \<open>
  The labels of the three optional aggregate entries of the report, and the console
  labels of the optional aggregates with the keys of their series.
\<close>

definition is_label :: "chunk \<Rightarrow> bool" where
  "is_label c = (c = C_lit PSNR_label \<or> c = C_lit SSIM_label \<or> c = C_lit MS_SSIM_label)"


section \<open>Properties of \<open>read_frame\<close>\<close>

lemma not_Locked [simp]: "(m \<noteq> Locked) = (m = Unlocked)"
  by (cases m) simp_all

lemma copy_pixel_trace:
  "copy_pixel h off i j b = Inr b' \<Longrightarrow> snd (snd b') = snd (snd b) @ pixel_writes h off i j"
  by (auto simp: copy_pixel_def pixel_writes_def Let_def split: prod.splits if_splits)

lemma copy_pixel_fault: "copy_pixel h off i j b = Inl e \<Longrightarrow> e = OutOfBounds"
  by (auto simp: copy_pixel_def Let_def split: prod.splits if_splits)

text \<open>
  The inner loop appends to the record of effects only pixel stores, and among them
  the stores of every column from \<open>j\<close> on.
\<close>

lemma read_cols_trace:
  "read_cols h off i j b = Inr b' \<Longrightarrow>
     \<exists>ws. snd (snd b') = snd (snd b) @ ws \<and> list_all is_write ws \<and>
       (\<forall>j'. j \<le> j' \<and> int j' < frame_width h \<longrightarrow> set (pixel_writes h off i j') \<subseteq> set ws)"
proof (induction h off i j b rule: read_cols.induct)
  case (1 h off i j b)
  show ?case
  proof (cases "int j < frame_width h")
    case False
    with "1.prems" have "b' = b" by (simp add: read_cols.simps)
    moreover have "\<forall>j'. \<not> (j \<le> j' \<and> int j' < frame_width h)" using False by auto
    ultimately show ?thesis by auto
  next
    case True
    with "1.prems" obtain b1 where c: "copy_pixel h off i j b = Inr b1"
      and r: "read_cols h off i (Suc j) b1 = Inr b'"
      by (auto simp: read_cols.simps[of h off i j b] split: sum.splits)
    from "1.IH"[OF True c r] obtain ws where
      ws: "snd (snd b') = snd (snd b1) @ ws" "list_all is_write ws"
        "\<forall>j'. Suc j \<le> j' \<and> int j' < frame_width h \<longrightarrow> set (pixel_writes h off i j') \<subseteq> set ws"
      by blast
    let ?ws = "pixel_writes h off i j @ ws"
    have "snd (snd b') = snd (snd b) @ ?ws"
      using ws(1) copy_pixel_trace[OF c] by simp
    moreover have "list_all is_write ?ws"
      using ws(2) by (simp add: pixel_writes_def)
    moreover have "\<forall>j'. j \<le> j' \<and> int j' < frame_width h \<longrightarrow> set (pixel_writes h off i j') \<subseteq> set ?ws"
    proof (intro allI impI)
      fix j' assume a: "j \<le> j' \<and> int j' < frame_width h"
      show "set (pixel_writes h off i j') \<subseteq> set ?ws"
      proof (cases "j' = j")
        case True then show ?thesis by auto
      next
        case False
        with a have "Suc j \<le> j' \<and> int j' < frame_width h" by auto
        with ws(3) show ?thesis by auto
      qed
    qed
    ultimately show ?thesis by blast
  qed
qed

lemma read_cols_fault: "read_cols h off i j b = Inl e \<Longrightarrow> e = OutOfBounds"
proof (induction h off i j b rule: read_cols.induct)
  case (1 h off i j b)
  then show ?case
    by (auto simp: read_cols.simps[of h off i j b] split: if_splits sum.splits
             dest: copy_pixel_fault)
qed

text \<open>The outer loop, with \<open>ref_ptr\<close> at row \<open>i\<close> standing \<open>i * step\<close> into the buffer.\<close>

lemma read_rows_trace:
  "read_rows h step i off b = Inr b' \<Longrightarrow> off = i * step \<Longrightarrow>
     \<exists>ws. snd (snd b') = snd (snd b) @ ws \<and> list_all is_write ws \<and>
       (\<forall>i' j'. i \<le> i' \<and> int i' < frame_height h \<and> int j' < frame_width h \<longrightarrow>
           set (pixel_writes h (i' * step) i' j') \<subseteq> set ws)"
proof (induction h step i off b rule: read_rows.induct)
  case (1 h step i off b)
  show ?case
  proof (cases "int i < frame_height h")
    case False
    with "1.prems" have "b' = b" by (simp add: read_rows.simps)
    moreover have "\<forall>i'. \<not> (i \<le> i' \<and> int i' < frame_height h)" using False by auto
    ultimately show ?thesis by auto
  next
    case True
    with "1.prems"(1) obtain b1 where c: "read_cols h off i 0 b = Inr b1"
      and r: "read_rows h step (Suc i) (off + step) b1 = Inr b'"
      by (auto simp: read_rows.simps[of h step i off b] split: sum.splits)
    have off': "off + step = Suc i * step" using "1.prems"(2) by simp
    from "1.IH"[OF True c r off'] obtain ws where
      ws: "snd (snd b') = snd (snd b1) @ ws" "list_all is_write ws"
        "\<forall>i' j'. Suc i \<le> i' \<and> int i' < frame_height h \<and> int j' < frame_width h \<longrightarrow>
           set (pixel_writes h (i' * step) i' j') \<subseteq> set ws"
      by blast
    from read_cols_trace[OF c] obtain cs where
      cs: "snd (snd b1) = snd (snd b) @ cs" "list_all is_write cs"
        "\<forall>j'. 0 \<le> j' \<and> int j' < frame_width h \<longrightarrow> set (pixel_writes h off i j') \<subseteq> set cs"
      by blast
    let ?ws = "cs @ ws"
    have "snd (snd b') = snd (snd b) @ ?ws" using ws(1) cs(1) by simp
    moreover have "list_all is_write ?ws" using ws(2) cs(2) by simp
    moreover have "\<forall>i' j'. i \<le> i' \<and> int i' < frame_height h \<and> int j' < frame_width h \<longrightarrow>
           set (pixel_writes h (i' * step) i' j') \<subseteq> set ?ws"
    proof (intro allI impI)
      fix i' j' assume a: "i \<le> i' \<and> int i' < frame_height h \<and> int j' < frame_width h"
      show "set (pixel_writes h (i' * step) i' j') \<subseteq> set ?ws"
      proof (cases "i' = i")
        case True
        with a cs(3) "1.prems"(2) show ?thesis by auto
      next
        case False
        with a have "Suc i \<le> i' \<and> int i' < frame_height h \<and> int j' < frame_width h" by auto
        with ws(3) show ?thesis by auto
      qed
    qed
    ultimately show ?thesis by blast
  qed
qed

lemma read_rows_fault: "read_rows h step i off b = Inl e \<Longrightarrow> e = OutOfBounds"
proof (induction h step i off b rule: read_rows.induct)
  case (1 h step i off b)
  then show ?case
    by (auto simp: read_rows.simps[of h step i off b] split: if_splits sum.splits
             dest: read_cols_fault)
qed

lemma pixel_writes_cong:
  "original_ptr h' = original_ptr h \<Longrightarrow> distorted_ptr h' = distorted_ptr h \<Longrightarrow>
   frame_width h' = frame_width h \<Longrightarrow> pixel_writes h' = pixel_writes h"
  by (auto simp: pixel_writes_def fun_eq_iff)

lemma read_frame_blocked:
  "(read_frame rd md td stride h = Inl Blocked) = (wait_frame h = Locked)"
proof (cases "wait_frame h")
  case Locked
  then show ?thesis by (simp add: read_frame_def g_mutex_lock_def)
next
  case Unlocked
  then show ?thesis
    by (auto simp: read_frame_def g_mutex_lock_def Let_def split: sum.splits prod.splits
             dest: read_rows_fault)
qed

lemma read_frame_no_frames:
  "wait_frame h = Unlocked \<Longrightarrow> no_frames h \<Longrightarrow>
   read_frame rd md td stride h =
     Inr (2, rd, md, h\<lparr>wait_frame := Locked, reading_correct := False\<rparr>,
          [Lock_wait_frame, Set_reading_correct False])"
  by (simp add: read_frame_def g_mutex_lock_def)

lemma read_frame_success:
  assumes "read_frame rd md td stride h = Inr (0, rd', md', h', tr)"
  shows "h' = h\<lparr>wait_frame := Locked, reading_correct := True, wait_reading_complete := Unlocked\<rparr>"
    and "\<exists>ws. tr = Lock_wait_frame # ws @ [Set_reading_correct True, Unlock_wait_reading_complete] \<and>
           list_all is_write ws \<and>
           (\<forall>i j. int i < frame_height h \<and> int j < frame_width h \<longrightarrow>
              set (pixel_writes h (i * row_step stride) i j) \<subseteq> set ws)"
proof -
  let ?h1 = "h\<lparr>wait_frame := Locked\<rparr>"
  from assms have u: "wait_frame h = Unlocked" and nf: "\<not> no_frames h"
    by (auto simp: read_frame_def g_mutex_lock_def Let_def split: if_splits sum.splits prod.splits)
  from assms u nf obtain tr0 where
    rr: "read_rows ?h1 (row_step stride) 0 0 (rd, md, [Lock_wait_frame]) = Inr (rd', md', tr0)"
    and tr: "tr = tr0 @ [Set_reading_correct True, Unlock_wait_reading_complete]"
    and h': "h' = ?h1\<lparr>reading_correct := True, wait_reading_complete := Unlocked\<rparr>"
    by (auto simp: read_frame_def g_mutex_lock_def Let_def split: sum.splits prod.splits)
  show "h' = h\<lparr>wait_frame := Locked, reading_correct := True, wait_reading_complete := Unlocked\<rparr>"
    using h' by simp
  from read_rows_trace[OF rr] obtain ws where
    ws: "tr0 = [Lock_wait_frame] @ ws" "list_all is_write ws"
      "\<forall>i' j'. 0 \<le> i' \<and> int i' < frame_height ?h1 \<and> int j' < frame_width ?h1 \<longrightarrow>
           set (pixel_writes ?h1 (i' * row_step stride) i' j') \<subseteq> set ws"
    by auto
  have pw: "pixel_writes ?h1 = pixel_writes h"
    by (rule pixel_writes_cong) simp_all
  show "\<exists>ws. tr = Lock_wait_frame # ws @ [Set_reading_correct True, Unlock_wait_reading_complete] \<and>
           list_all is_write ws \<and>
           (\<forall>i j. int i < frame_height h \<and> int j < frame_width h \<longrightarrow>
              set (pixel_writes h (i * row_step stride) i j) \<subseteq> set ws)"
    using ws tr pw by (intro exI[of _ ws]) auto
qed

text \<open>
  Claim C1. The pull callback does not return while \<open>wait_frame\<close> is locked, and
  returns once it is released; the signal of deactivation (\<open>close_signal\<close>) releases
  it with \<open>no_frames\<close> set. Released with \<open>no_frames\<close> set, the callback returns 2 with
  \<open>reading_correct\<close> false, and neither releases \<open>wait_reading_complete\<close> nor
  touches the buffers. Whenever it returns 0, its effects are, in this order: taking
  \<open>wait_frame\<close>; pixel stores only, among them the store of every pixel of the frame
  into the reference and into the distorted buffer; setting \<open>reading_correct\<close>; and
  last the release of \<open>wait_reading_complete\<close>.
\<close>

theorem read_frame_handoff:
  "((read_frame rd md td stride h = Inl Blocked) = (wait_frame h = Locked)) \<and>
   (wait_frame h = Unlocked \<and> no_frames h \<longrightarrow>
      read_frame rd md td stride h =
        Inr (2, rd, md, h\<lparr>wait_frame := Locked, reading_correct := False\<rparr>,
             [Lock_wait_frame, Set_reading_correct False])) \<and>
   read_frame rd md td stride (close_signal h) =
     Inr (2, rd, md, (close_signal h)\<lparr>wait_frame := Locked, reading_correct := False\<rparr>,
          [Lock_wait_frame, Set_reading_correct False]) \<and>
   (\<forall>rd' md' h' tr.
      read_frame rd md td stride h = Inr (0, rd', md', h', tr) \<longrightarrow>
        h' = h\<lparr>wait_frame := Locked, reading_correct := True,
               wait_reading_complete := Unlocked\<rparr> \<and>
        (\<exists>ws. tr = Lock_wait_frame # ws @
                    [Set_reading_correct True, Unlock_wait_reading_complete] \<and>
              list_all is_write ws \<and>
              (\<forall>i j. int i < frame_height h \<and> int j < frame_width h \<longrightarrow>
                 Write_ref (i * row_step stride + j)
                   (float_of_guint8 (original_ptr h ! (i * nat (frame_width h) + j))) \<in> set ws \<and>
                 Write_main (i * row_step stride + j)
                   (float_of_guint8 (distorted_ptr h ! (i * nat (frame_width h) + j))) \<in> set ws)))"
proof (intro conjI allI impI)
  show "(read_frame rd md td stride h = Inl Blocked) = (wait_frame h = Locked)"
    by (rule read_frame_blocked)
next
  assume "wait_frame h = Unlocked \<and> no_frames h"
  then show "read_frame rd md td stride h =
        Inr (2, rd, md, h\<lparr>wait_frame := Locked, reading_correct := False\<rparr>,
             [Lock_wait_frame, Set_reading_correct False])"
    by (simp add: read_frame_no_frames)
next
  show "read_frame rd md td stride (close_signal h) =
     Inr (2, rd, md, (close_signal h)\<lparr>wait_frame := Locked, reading_correct := False\<rparr>,
          [Lock_wait_frame, Set_reading_correct False])"
    by (rule read_frame_no_frames) (simp_all add: close_signal_def)
next
  fix rd' md' h' tr
  assume a: "read_frame rd md td stride h = Inr (0, rd', md', h', tr)"
  show "h' = h\<lparr>wait_frame := Locked, reading_correct := True, wait_reading_complete := Unlocked\<rparr>"
    by (rule read_frame_success(1)[OF a])
  from read_frame_success(2)[OF a] obtain ws where
    ws: "tr = Lock_wait_frame # ws @ [Set_reading_correct True, Unlock_wait_reading_complete]"
      "list_all is_write ws"
      "\<forall>i j. int i < frame_height h \<and> int j < frame_width h \<longrightarrow>
              set (pixel_writes h (i * row_step stride) i j) \<subseteq> set ws"
    by blast
  from ws(3) have "\<forall>i j. int i < frame_height h \<and> int j < frame_width h \<longrightarrow>
                 Write_ref (i * row_step stride + j)
                   (float_of_guint8 (original_ptr h ! (i * nat (frame_width h) + j))) \<in> set ws \<and>
                 Write_main (i * row_step stride + j)
                   (float_of_guint8 (distorted_ptr h ! (i * nat (frame_width h) + j))) \<in> set ws"
    by (simp add: pixel_writes_def)
  with ws(1,2) show "\<exists>ws. tr = Lock_wait_frame # ws @
                    [Set_reading_correct True, Unlock_wait_reading_complete] \<and>
              list_all is_write ws \<and>
              (\<forall>i j. int i < frame_height h \<and> int j < frame_width h \<longrightarrow>
                 Write_ref (i * row_step stride + j)
                   (float_of_guint8 (original_ptr h ! (i * nat (frame_width h) + j))) \<in> set ws \<and>
                 Write_main (i * row_step stride + j)
                   (float_of_guint8 (distorted_ptr h ! (i * nat (frame_width h) + j))) \<in> set ws)"
    by blast
qed

lemma ready_helper_read:
  "read_frame [0, 0] [0, 0] [] 8 ready_helper =
     Inr (0, [1, 2], [3, 4],
          ready_helper\<lparr>wait_frame := Locked, reading_correct := True,
                        wait_reading_complete := Unlocked\<rparr>,
          [Lock_wait_frame, Write_ref 0 1, Write_main 0 3, Write_ref 1 2, Write_main 1 4,
           Set_reading_correct True, Unlock_wait_reading_complete])"
  by (simp add: read_frame_def g_mutex_lock_def ready_helper_def helper_init_def row_step_def
      read_rows.simps read_cols.simps copy_pixel_def float_of_guint8_def Let_def gst_task_new_def)

theorem read_frame_handoff_witness:
  "wait_frame ready_helper = Unlocked \<and> \<not> no_frames ready_helper \<and>
   read_frame [0, 0] [0, 0] [] 8 ready_helper =
     Inr (0, [1, 2], [3, 4],
          ready_helper\<lparr>wait_frame := Locked, reading_correct := True,
                        wait_reading_complete := Unlocked\<rparr>,
          [Lock_wait_frame, Write_ref 0 1, Write_main 0 3, Write_ref 1 2, Write_main 1 4,
           Set_reading_correct True, Unlock_wait_reading_complete]) \<and>
   list_all is_write [Write_ref 0 1, Write_main 0 3, Write_ref 1 2, Write_main 1 4] \<and>
   wait_frame (close_signal (helper_init 0)) = Unlocked \<and> no_frames (close_signal (helper_init 0)) \<and>
   read_frame [0, 0] [0, 0] [] 8 (close_signal (helper_init 0)) =
     Inr (2, [0, 0], [0, 0],
          (close_signal (helper_init 0))\<lparr>wait_frame := Locked, reading_correct := False\<rparr>,
          [Lock_wait_frame, Set_reading_correct False]) \<and>
   read_frame [0, 0] [0, 0] [] 8 (helper_init 0) = Inl Blocked"
proof -
  have u: "wait_frame (close_signal (helper_init 0)) = Unlocked \<and>
           no_frames (close_signal (helper_init 0))"
    by (simp add: close_signal_def)
  have l: "wait_frame (helper_init 0) = Locked"
    by (simp add: helper_init_def)
  have r: "wait_frame ready_helper = Unlocked \<and> \<not> no_frames ready_helper"
    by (simp add: ready_helper_def helper_init_def)
  from read_frame_handoff[of "[0, 0]" "[0, 0]" "[]" 8 "close_signal (helper_init 0)"] u
  have c: "read_frame [0, 0] [0, 0] [] 8 (close_signal (helper_init 0)) =
     Inr (2, [0, 0], [0, 0],
          (close_signal (helper_init 0))\<lparr>wait_frame := Locked, reading_correct := False\<rparr>,
          [Lock_wait_frame, Set_reading_correct False])"
    by blast
  from read_frame_handoff[of "[0, 0]" "[0, 0]" "[]" 8 "helper_init 0"] l
  have b: "read_frame [0, 0] [0, 0] [] 8 (helper_init 0) = Inl Blocked"
    by blast
  from read_frame_handoff[of "[0, 0]" "[0, 0]" "[]" 8 ready_helper] ready_helper_read
  obtain ws where
    "[Lock_wait_frame, Write_ref 0 1, Write_main 0 3, Write_ref 1 2, Write_main 1 4,
      Set_reading_correct True, Unlock_wait_reading_complete] =
     Lock_wait_frame # ws @ [Set_reading_correct True, Unlock_wait_reading_complete]"
    and w: "list_all is_write ws"
    by blast
  then have "ws = [Write_ref 0 1, Write_main 0 3, Write_ref 1 2, Write_main 1 4]"
    by (simp add: append_eq_Cons_conv Cons_eq_append_conv)
  with w have "list_all is_write [Write_ref 0 1, Write_main 0 3, Write_ref 1 2, Write_main 1 4]"
    by simp
  with c b u r ready_helper_read show ?thesis by simp
qed

section \<open>What each operation leaves alone\<close>

lemmas model_defs =
  read_frame_def g_mutex_lock_def row_step_def read_rows.simps read_cols.simps copy_pixel_def
  float_of_guint8_def Let_def gst_task_new_def gst_task_start_def gst_task_stop_def
  try_thread_stop_def helper_init_def close_signal_def helper_step_def worker_step_def
  compare_frames_helper_def compare_frames_def vmaf_thread_call_def RunVMAF_def
  RunVMAF_console_def score_line_def line_if_nonzero_def score_if_present_def has_scores_def
  get_keys_def get_scores_def get_score_def setScoreAggregateMethod_def VmafPoolMethodNames_def
  BOOSTRAP_VMAF_MODEL_PREFIX_def show_int_def show_nat.simps stub_libs_def gst_vmaf_init_def
  ref_2x1_def cmp_2x1_def ref_3x1_def cmp_1x2_def

lemma read_frame_fields:
  "read_frame rd md td stride h = Inr (ret, rd', md', h', tr) \<Longrightarrow>
     score h' = score h \<and> error h' = error h \<and> frame_width h' = frame_width h \<and>
     frame_height h' = frame_height h \<and> vmaf_thread h' = vmaf_thread h"
  by (auto simp: read_frame_def g_mutex_lock_def Let_def split: if_splits sum.splits prod.splits)

lemma RunVMAF_returns:
  "RunVMAF X self outcome h = Inr (ret, h', console, report) \<Longrightarrow>
     frame_width h' = frame_width h \<and> frame_height h' = frame_height h \<and>
     vmaf_thread h' = vmaf_thread h \<and> sink_index h' = sink_index h \<and>
     (ret = 0 \<or> ret = - 3 \<or> ret = - 4 \<or> ret = - 5 \<or> ret = - 6) \<and>
     (ret \<noteq> 0 \<longrightarrow> h' = h \<and> \<not> returned outcome \<and> report = None) \<and>
     (ret = 0 \<longrightarrow> returned outcome \<and> error h' = 0)"
  by (auto simp: RunVMAF_def Let_def
           split: engine_outcome.splits cxx_exception.splits option.splits prod.splits
                  sum.splits if_splits)

lemma vmaf_thread_call_fields:
  "vmaf_thread_call X self outcome h = Inr (h', console, report) \<Longrightarrow>
     frame_width h' = frame_width h \<and> frame_height h' = frame_height h \<and>
     vmaf_thread h' = vmaf_thread h \<and> (score h' = score h \<or> returned outcome)"
  by (auto simp: vmaf_thread_call_def g_mutex_lock_def Let_def
           split: if_splits sum.splits prod.splits dest!: RunVMAF_returns)

lemma worker_step_fields:
  "worker_step X self a h = Inr h' \<Longrightarrow>
     geom h' = geom h \<and> (score h' = score h \<or> list_ex returned (worker_outcomes a))"
  by (cases a)
     (auto simp: worker_step_def geom_def split: sum.splits prod.splits
           dest!: read_frame_fields vmaf_thread_call_fields)

lemma run_worker_fields:
  "run_worker X self ws h = Inr h' \<Longrightarrow>
     geom h' = geom h \<and>
     (score h' = score h \<or> list_ex returned (concat (map worker_outcomes ws)))"
proof (induction ws arbitrary: h)
  case Nil
  then show ?case by simp
next
  case (Cons a ws)
  show ?case
  proof (cases "worker_step X self a h")
    case (Inl e)
    with Cons.prems have "h' = h" by (cases e) auto
    then show ?thesis by simp
  next
    case (Inr h1)
    with Cons.prems have "run_worker X self ws h1 = Inr h'" by simp
    from Cons.IH[OF this] worker_step_fields[OF Inr] show ?thesis by auto
  qed
qed

lemma try_thread_stop_calls [simp]: "start_calls (try_thread_stop t) = start_calls t"
  by (simp add: try_thread_stop_def gst_task_stop_def)

text \<open>
  A dispatch writes the geometry and starts the task only when the recorded width or
  height is still zero.
\<close>

lemma compare_frames_helper_fields:
  assumes "compare_frames_helper X self ws ref cmp outbuf h = Inr (r, h', outbuf')"
  shows "(score h' = score h \<or> list_ex returned (concat (map worker_outcomes ws)))"
    and "frame_width h \<noteq> 0 \<and> frame_height h \<noteq> 0 \<Longrightarrow> geom h' = geom h"
    and "frame_width h = 0 \<or> frame_height h = 0 \<Longrightarrow>
           geom h' = (info_width ref, info_height ref, Suc (start_calls (vmaf_thread h)))"
  using assms
  by (auto simp: compare_frames_helper_def g_mutex_lock_def Let_def geom_def gst_task_start_def
           split: if_splits sum.splits dest!: run_worker_fields)

lemma helper_step_fields:
  assumes "helper_step X self a h = Inr h'"
  shows "score h' = score h \<or> list_ex returned (action_outcomes a)"
    and "frame_width h \<noteq> 0 \<and> frame_height h \<noteq> 0 \<Longrightarrow> geom h' = geom h"
    and "\<not> is_dispatch a \<Longrightarrow> geom h' = geom h"
  using assms
  by (cases a; auto simp: helper_step_def close_signal_def geom_def split: sum.splits prod.splits
        dest: compare_frames_helper_fields worker_step_fields)+

lemma run_actions_append:
  "run_actions X self (as @ bs) h =
     (case run_actions X self as h of Inl e \<Rightarrow> Inl e | Inr h1 \<Rightarrow> run_actions X self bs h1)"
  by (induction as arbitrary: h) (auto split: sum.splits)

lemma run_actions_score:
  "run_actions X self as h = Inr h' \<Longrightarrow>
     score h' = score h \<or> list_ex returned (concat (map action_outcomes as))"
proof (induction as arbitrary: h)
  case Nil
  then show ?case by simp
next
  case (Cons a as)
  from Cons.prems obtain h1 where s: "helper_step X self a h = Inr h1"
    and r: "run_actions X self as h1 = Inr h'"
    by (auto split: sum.splits)
  from Cons.IH[OF r] helper_step_fields(1)[OF s] show ?case by auto
qed

lemma run_actions_geom_frozen:
  "run_actions X self as h = Inr h' \<Longrightarrow> frame_width h \<noteq> 0 \<and> frame_height h \<noteq> 0 \<Longrightarrow>
     geom h' = geom h"
proof (induction as arbitrary: h)
  case Nil
  then show ?case by simp
next
  case (Cons a as)
  from Cons.prems(1) obtain h1 where s: "helper_step X self a h = Inr h1"
    and r: "run_actions X self as h1 = Inr h'"
    by (auto split: sum.splits)
  from helper_step_fields(2)[OF s Cons.prems(2)] have g: "geom h1 = geom h" .
  with Cons.prems(2) have "frame_width h1 \<noteq> 0 \<and> frame_height h1 \<noteq> 0"
    by (simp add: geom_def)
  from Cons.IH[OF r this] g show ?case by simp
qed

lemma run_actions_geom_idle:
  "run_actions X self as h = Inr h' \<Longrightarrow> \<not> list_ex is_dispatch as \<Longrightarrow> geom h' = geom h"
proof (induction as arbitrary: h)
  case Nil
  then show ?case by simp
next
  case (Cons a as)
  from Cons.prems(1) obtain h1 where s: "helper_step X self a h = Inr h1"
    and r: "run_actions X self as h1 = Inr h'"
    by (auto split: sum.splits)
  from Cons.prems(2) have na: "\<not> is_dispatch a" and nas: "\<not> list_ex is_dispatch as" by auto
  from helper_step_fields(3)[OF s na] Cons.IH[OF r nas] show ?case by simp
qed

lemma helper_init_score: "score (helper_init i) = - 1"
  by (simp add: helper_init_def)

text \<open>
  A report comes from the block that writes it, with the aggregate that was stored in
  the helper's score.
\<close>

lemma RunVMAF_report_log:
  assumes "RunVMAF X self (Returns r) h = Inr (ret, h', console, Some report)"
  obtains v nb bs where
    "RunVMAF_log X self (setScoreAggregateMethod (pool_method self)) r (frame_width h)
       (frame_height h) v nb bs = Inr report" and "score h' = v"
  using assms
  by (auto simp: RunVMAF_def Let_def split: option.splits prod.splits sum.splits if_splits)

text \<open>The run with a report, stride 3, evaluated.\<close>

lemma run_stride3:
  "RunVMAF stub_libs logging_vmaf (Returns four_scores) ready_helper =
     Inr (0, ready_helper\<lparr>score := 93, error := 0\<rparr>, [''VMAF score (mean) = 93''],
          Some report_stride3)"
  by (simp add: model_defs ready_helper_def logging_vmaf_def four_scores_def report_stride3_def
        RunVMAF_log_def log_params_def log_metrics_def log_frame_def score_at_def frame_num_def
        frameNum_label_def log_aggregates_def log_entry_if_nonzero_def int_of_guint_def upt_rec)

section \<open>Lazy start and frozen geometry\<close>

text \<open>
  Claim C4. Take any history of one helper from activation on in which every
  operation returns. As long as no frame pair has been dispatched, the task has
  received no \<open>gst_task_start\<close> and the recorded geometry is zero. Once a first pair
  has been dispatched, whatever follows (later dispatches with frames of any geometry,
  steps of the worker, the signal of deactivation), the task has received exactly
  one \<open>gst_task_start\<close> and the recorded geometry is that of the first reference frame.
  The first frame's width and height are positive: the sink pad template
  (\<open>GST_VIDEO_CAPS_MAKE\<close>) admits no other.
\<close>

theorem lazy_start_once:
  "(run_actions X self pre (helper_init i) = Inr h0 \<and> \<not> list_ex is_dispatch pre \<longrightarrow>
      start_calls (vmaf_thread h0) = 0 \<and> frame_width h0 = 0 \<and> frame_height h0 = 0) \<and>
   (run_actions X self (pre @ Dispatch ws ref cmp outbuf # post) (helper_init i) = Inr h' \<and>
    \<not> list_ex is_dispatch pre \<and> 0 < info_width ref \<and> 0 < info_height ref \<longrightarrow>
      start_calls (vmaf_thread h') = 1 \<and>
      frame_width h' = info_width ref \<and> frame_height h' = info_height ref)"
proof (rule conjI; rule impI)
  assume a: "run_actions X self pre (helper_init i) = Inr h0 \<and> \<not> list_ex is_dispatch pre"
  then have "geom h0 = geom (helper_init i)" by (auto dest: run_actions_geom_idle)
  then show "start_calls (vmaf_thread h0) = 0 \<and> frame_width h0 = 0 \<and> frame_height h0 = 0"
    by (simp add: geom_def helper_init_def gst_task_new_def)
next
  assume a: "run_actions X self (pre @ Dispatch ws ref cmp outbuf # post) (helper_init i) = Inr h' \<and>
    \<not> list_ex is_dispatch pre \<and> 0 < info_width ref \<and> 0 < info_height ref"
  then obtain h0 h1 where p: "run_actions X self pre (helper_init i) = Inr h0"
    and d: "helper_step X self (Dispatch ws ref cmp outbuf) h0 = Inr h1"
    and q: "run_actions X self post h1 = Inr h'"
    by (auto simp: run_actions_append split: sum.splits)
  from p a have g0: "geom h0 = geom (helper_init i)" by (auto dest: run_actions_geom_idle)
  then have z: "frame_width h0 = 0 \<or> frame_height h0 = 0" and c0: "start_calls (vmaf_thread h0) = 0"
    by (simp_all add: geom_def helper_init_def gst_task_new_def)
  from d obtain r ob where "compare_frames_helper X self ws ref cmp outbuf h0 = Inr (r, h1, ob)"
    by (auto simp: helper_step_def split: sum.splits)
  from compare_frames_helper_fields(3)[OF this z] c0
  have g1: "geom h1 = (info_width ref, info_height ref, 1)" by simp
  with a have "frame_width h1 \<noteq> 0 \<and> frame_height h1 \<noteq> 0" by (auto simp: geom_def)
  from run_actions_geom_frozen[OF q this] g1
  show "start_calls (vmaf_thread h') = 1 \<and>
      frame_width h' = info_width ref \<and> frame_height h' = info_height ref"
    by (simp add: geom_def)
qed

lemma history_two_dispatches:
  "run_actions stub_libs gst_vmaf_init
     ([] @ Dispatch [Engine_reads [0, 0] [0, 0] 8] ref_2x1 cmp_2x1 [0, 0] #
      [Dispatch [Engine_reads [0, 0] [0, 0] 8] ref_3x1 ref_3x1 [0, 0, 0]]) (helper_init 0) =
   Inr \<lparr>vmaf_thread = \<lparr>task_state = GST_TASK_STARTED, start_calls = 1\<rparr>,
        wait_frame = Locked, wait_reading_complete = Locked,
        check_error = Unlocked, no_frames = False, reading_correct = True,
        score = - 1, error = 0, sink_index = 0, original_ptr = [5, 6, 7],
        distorted_ptr = [5, 6, 7], frame_height = 1, frame_width = 2\<rparr>"
  by (simp add: model_defs)

theorem lazy_start_once_witness:
  "run_actions stub_libs gst_vmaf_init [Close_signal] (helper_init 0) =
     Inr (close_signal (helper_init 0)) \<and>
   \<not> list_ex is_dispatch [Close_signal] \<and>
   start_calls (vmaf_thread (close_signal (helper_init 0))) = 0 \<and>
   frame_width (close_signal (helper_init 0)) = 0 \<and>
   frame_height (close_signal (helper_init 0)) = 0 \<and>
   \<not> list_ex is_dispatch [] \<and>
   0 < info_width ref_2x1 \<and> 0 < info_height ref_2x1 \<and>
   run_actions stub_libs gst_vmaf_init
     ([] @ Dispatch [Engine_reads [0, 0] [0, 0] 8] ref_2x1 cmp_2x1 [0, 0] #
      [Dispatch [Engine_reads [0, 0] [0, 0] 8] ref_3x1 ref_3x1 [0, 0, 0]]) (helper_init 0) =
   Inr \<lparr>vmaf_thread = \<lparr>task_state = GST_TASK_STARTED, start_calls = 1\<rparr>,
        wait_frame = Locked, wait_reading_complete = Locked,
        check_error = Unlocked, no_frames = False, reading_correct = True,
        score = - 1, error = 0, sink_index = 0, original_ptr = [5, 6, 7],
        distorted_ptr = [5, 6, 7], frame_height = 1, frame_width = 2\<rparr> \<and>
   info_width ref_2x1 = 2 \<and> info_height ref_2x1 = 1 \<and> info_width ref_3x1 = 3"
proof -
  have p: "run_actions stub_libs gst_vmaf_init [Close_signal] (helper_init 0) =
     Inr (close_signal (helper_init 0))"
    by (simp add: helper_step_def)
  have n: "\<not> list_ex is_dispatch [Close_signal]" by simp
  have g: "0 < info_width ref_2x1 \<and> 0 < info_height ref_2x1 \<and>
           info_width ref_2x1 = 2 \<and> info_height ref_2x1 = 1 \<and> info_width ref_3x1 = 3"
    by (simp add: ref_2x1_def ref_3x1_def)
  from lazy_start_once[of stub_libs gst_vmaf_init "[Close_signal]" 0
      "close_signal (helper_init 0)"] p n
  have "start_calls (vmaf_thread (close_signal (helper_init 0))) = 0 \<and>
        frame_width (close_signal (helper_init 0)) = 0 \<and>
        frame_height (close_signal (helper_init 0)) = 0"
    by blast
  with p n g history_two_dispatches show ?thesis by simp
qed

section \<open>The score field\<close>

text \<open>
  Claim C10. Activation sets every helper's score to -1. \<open>RunVMAF\<close> returns a
  nonzero code exactly when the engine's run threw, and then leaves the score as it
  was. Through any history of a helper from activation on (dispatches, steps of the
  worker, the signal of deactivation; none at all for a worker that never started),
  the score is still -1 unless some engine run in the history returned; so a
  non-negative score implies that a run completed.
\<close>

theorem score_written_on_success_only:
  "(vmaf_threads_open n self = Inr self' \<longrightarrow>
      list_all (\<lambda>h. score h = - 1) (helper_struct_pointer self')) \<and>
   (RunVMAF X self outcome h = Inr (ret, h', console, report) \<and> ret \<noteq> 0 \<longrightarrow>
      score h' = score h \<and> \<not> returned outcome) \<and>
   (RunVMAF X self outcome h = Inr (ret, h', console, report) \<and> \<not> returned outcome \<longrightarrow>
      ret \<noteq> 0 \<and> score h' = score h) \<and>
   (run_actions X self as (helper_init i) = Inr h'' \<and>
    \<not> list_ex returned (concat (map action_outcomes as)) \<longrightarrow> score h'' = - 1) \<and>
   (run_actions X self as (helper_init i) = Inr h'' \<and> 0 \<le> score h'' \<longrightarrow>
      list_ex returned (concat (map action_outcomes as)))"
proof -
  have c1: "vmaf_threads_open n self = Inr self' \<longrightarrow>
      list_all (\<lambda>h. score h = - 1) (helper_struct_pointer self')"
    by (auto simp: vmaf_threads_open_def Let_def list_all_iff helper_init_score split: if_splits)
  have c2: "RunVMAF X self outcome h = Inr (ret, h', console, report) \<and> ret \<noteq> 0 \<longrightarrow>
      score h' = score h \<and> \<not> returned outcome"
    by (auto dest!: RunVMAF_returns)
  have c3: "RunVMAF X self outcome h = Inr (ret, h', console, report) \<and> \<not> returned outcome \<longrightarrow>
      ret \<noteq> 0 \<and> score h' = score h"
    by (auto dest!: RunVMAF_returns)
  have c4: "run_actions X self as (helper_init i) = Inr h'' \<and>
    \<not> list_ex returned (concat (map action_outcomes as)) \<longrightarrow> score h'' = - 1"
    using run_actions_score[of X self as "helper_init i" h''] by (auto simp: helper_init_score)
  have c5: "run_actions X self as (helper_init i) = Inr h'' \<and> 0 \<le> score h'' \<longrightarrow>
      list_ex returned (concat (map action_outcomes as))"
    using run_actions_score[of X self as "helper_init i" h''] by (auto simp: helper_init_score)
  from c1 c2 c3 c4 c5 show ?thesis by blast
qed

lemma open_three_pads:
  "vmaf_threads_open 3 gst_vmaf_init =
     Inr (gst_vmaf_init\<lparr>number_of_vmaf_threads := 2,
                         helper_struct_pointer := [helper_init 0, helper_init 1]\<rparr>)"
  by (simp add: vmaf_threads_open_def upt_rec)

lemma run_throws:
  "RunVMAF stub_libs gst_vmaf_init (Throws (Runtime_error ''boom'')) ready_helper =
     Inr (- 3, ready_helper, [''Caught runtime_error: boom''], None)"
  by (simp add: RunVMAF_def)

lemma history_failed_run:
  "run_actions stub_libs gst_vmaf_init
     [Dispatch [Run_ends (Throws (Runtime_error ''boom''))] ref_2x1 cmp_2x1 [0, 0]]
     (helper_init 0) =
   Inr \<lparr>vmaf_thread = \<lparr>task_state = GST_TASK_STOPPED, start_calls = 1\<rparr>,
        wait_frame = Unlocked, wait_reading_complete = Locked,
        check_error = Unlocked, no_frames = False, reading_correct = False,
        score = - 1, error = - 3, sink_index = 0, original_ptr = [1, 2],
        distorted_ptr = [3, 4], frame_height = 1, frame_width = 2\<rparr>"
  by (simp add: model_defs)

lemma history_completed_run:
  "run_actions stub_libs gst_vmaf_init
     [Dispatch [Engine_reads [0, 0] [0, 0] 8] ref_2x1 cmp_2x1 [0, 0], Close_signal,
      Worker (Engine_reads [0, 0] [0, 0] 8), Worker (Run_ends (Returns [(''vmaf'', [90])]))]
     (helper_init 0) =
   Inr \<lparr>vmaf_thread = \<lparr>task_state = GST_TASK_STARTED, start_calls = 1\<rparr>,
        wait_frame = Locked, wait_reading_complete = Unlocked,
        check_error = Unlocked, no_frames = True, reading_correct = False,
        score = 90, error = 0, sink_index = 0, original_ptr = [1, 2],
        distorted_ptr = [3, 4], frame_height = 1, frame_width = 2\<rparr>"
  by (simp add: model_defs)

theorem score_written_on_success_only_witness:
  "vmaf_threads_open 3 gst_vmaf_init =
     Inr (gst_vmaf_init\<lparr>number_of_vmaf_threads := 2,
                         helper_struct_pointer := [helper_init 0, helper_init 1]\<rparr>) \<and>
   list_all (\<lambda>h. score h = - 1) [helper_init 0, helper_init 1] \<and>
   RunVMAF stub_libs gst_vmaf_init (Throws (Runtime_error ''boom'')) ready_helper =
     Inr (- 3, ready_helper, [''Caught runtime_error: boom''], None) \<and>
   \<not> returned (Throws (Runtime_error ''boom'')) \<and>
   run_actions stub_libs gst_vmaf_init
     [Dispatch [Run_ends (Throws (Runtime_error ''boom''))] ref_2x1 cmp_2x1 [0, 0]]
     (helper_init 0) =
   Inr \<lparr>vmaf_thread = \<lparr>task_state = GST_TASK_STOPPED, start_calls = 1\<rparr>,
        wait_frame = Unlocked, wait_reading_complete = Locked,
        check_error = Unlocked, no_frames = False, reading_correct = False,
        score = - 1, error = - 3, sink_index = 0, original_ptr = [1, 2],
        distorted_ptr = [3, 4], frame_height = 1, frame_width = 2\<rparr> \<and>
   run_actions stub_libs gst_vmaf_init
     [Dispatch [Engine_reads [0, 0] [0, 0] 8] ref_2x1 cmp_2x1 [0, 0], Close_signal,
      Worker (Engine_reads [0, 0] [0, 0] 8), Worker (Run_ends (Returns [(''vmaf'', [90])]))]
     (helper_init 0) =
   Inr \<lparr>vmaf_thread = \<lparr>task_state = GST_TASK_STARTED, start_calls = 1\<rparr>,
        wait_frame = Locked, wait_reading_complete = Unlocked,
        check_error = Unlocked, no_frames = True, reading_correct = False,
        score = 90, error = 0, sink_index = 0, original_ptr = [1, 2],
        distorted_ptr = [3, 4], frame_height = 1, frame_width = 2\<rparr> \<and>
   list_ex returned
     (concat (map action_outcomes
        [Dispatch [Engine_reads [0, 0] [0, 0] 8] ref_2x1 cmp_2x1 [0, 0], Close_signal,
         Worker (Engine_reads [0, 0] [0, 0] 8),
         Worker (Run_ends (Returns [(''vmaf'', [90])]))]))"
proof -
  from score_written_on_success_only[of 3 gst_vmaf_init
      "gst_vmaf_init\<lparr>number_of_vmaf_threads := 2,
                      helper_struct_pointer := [helper_init 0, helper_init 1]\<rparr>"]
    open_three_pads
  have "list_all (\<lambda>h. score h = - 1) [helper_init 0, helper_init 1]"
    by simp
  then show ?thesis
    using open_three_pads run_throws history_failed_run history_completed_run by simp
qed

section \<open>A stream that has failed\<close>

text \<open>
  Claim C5, evaluated. The run of stream 0 throws during the first dispatch; the helper
  then holds error -3. The next dispatch returns \<open>FALSE\<close> without submitting the
  frame, but through the early \<open>return\<close> that leaves \<open>check_error\<close> locked. The dispatch
  after that does not return: it blocks on \<open>check_error\<close>, and so does the task
  function. With \<open>check_error\<close> free, the task function returns at once, printing
  nothing and running no engine.
\<close>

theorem error_path_keeps_check_error:
  "run_actions stub_libs gst_vmaf_init
     [Dispatch [Run_ends (Throws (Runtime_error ''boom''))] ref_2x1 cmp_2x1 [0, 0]]
     (helper_init 0) = Inr errored_helper \<and>
   compare_frames stub_libs errored_vmaf [] ref_2x1 cmp_2x1 [0, 0] 0 =
     Inr (False,
          errored_vmaf\<lparr>helper_struct_pointer := [errored_helper\<lparr>check_error := Locked\<rparr>]\<rparr>,
          [0, 0]) \<and>
   compare_frames stub_libs
     (errored_vmaf\<lparr>helper_struct_pointer := [errored_helper\<lparr>check_error := Locked\<rparr>]\<rparr>)
     [] ref_2x1 cmp_2x1 [0, 0] 0 = Inl Blocked \<and>
   vmaf_thread_call stub_libs errored_vmaf (Throws (Runtime_error ''boom''))
     (errored_helper\<lparr>check_error := Locked\<rparr>) = Inl Blocked \<and>
   vmaf_thread_call stub_libs errored_vmaf (Throws (Runtime_error ''boom'')) errored_helper =
     Inr (errored_helper, [], None)"
  by (simp add: model_defs errored_helper_def errored_vmaf_def)

section \<open>One output cycle\<close>

lemma prepared_frames_simps [simp]:
  "prepared_frames [] = []"
  "prepared_frames (None # l) = prepared_frames l"
  "prepared_frames (Some f # l) = f # prepared_frames l"
  by (simp_all add: prepared_frames_def)

text \<open>Once the reference frame is known, the loop dispatches every further frame.\<close>

lemma aggregate_loop_ref:
  "aggregate_loop X env l (Some ref) res k self outbuf =
     (case dispatch_every_stream X env ref (prepared_frames l) k self outbuf of
        Inl e \<Rightarrow> Inl e
      | Inr (rs, self', outbuf') \<Rightarrow> Inr (res \<and> False \<notin> set rs, self', outbuf'))"
proof (induction l arbitrary: res k self outbuf)
  case Nil
  then show ?case by simp
next
  case (Cons p l)
  show ?case
  proof (cases p)
    case None
    then show ?thesis using Cons.IH by simp
  next
    case (Some f)
    then show ?thesis
      by (auto simp: Cons.IH split: sum.splits prod.splits)
  qed
qed

lemma aggregate_loop_noref:
  "aggregate_loop X env l None res k self outbuf =
     (case prepared_frames l of
        [] \<Rightarrow> Inr (res, self, outbuf)
      | ref # cmps \<Rightarrow>
          (case dispatch_every_stream X env ref cmps k self outbuf of
             Inl e \<Rightarrow> Inl e
           | Inr (rs, self', outbuf') \<Rightarrow> Inr (res \<and> False \<notin> set rs, self', outbuf')))"
proof (induction l)
  case Nil
  then show ?case by simp
next
  case (Cons p l)
  then show ?case by (cases p) (simp_all add: aggregate_loop_ref)
qed

lemma dispatch_every_stream_length:
  "dispatch_every_stream X env ref cs k self outbuf = Inr (rs, self', outbuf') \<Longrightarrow>
     length rs = length cs"
  by (induction cs arbitrary: k self outbuf rs) (auto split: sum.splits prod.splits)

text \<open>
  A cycle whose dispatches all return. The first pad with a prepared frame supplies the
  reference; every further prepared frame is dispatched, in pad order, frame \<open>j\<close> to
  stream \<open>j\<close>, whatever the earlier dispatches returned (one outcome per frame); the
  flow return is \<open>GST_FLOW_ERROR\<close>, with no message posted, if and only if some
  outcome is \<open>FALSE\<close>; otherwise one message with the field \<open>time\<close> is posted and the
  flow return is \<open>GST_FLOW_OK\<close>. A dispatch that does not return keeps the cycle
  from returning.
\<close>

lemma returning_cycle:
  "gst_vmaf_aggregate_frames X env self sinkpads outbuf position =
     (case prepared_frames sinkpads of
        [] \<Rightarrow> Inr (GST_FLOW_OK, self, outbuf,
                   [\<lparr>structure_name = ''VMAF'', structure_fields = [(''time'', position)]\<rparr>])
      | ref # cmps \<Rightarrow>
          (case dispatch_every_stream X env ref cmps 0 self outbuf of
             Inl e \<Rightarrow> Inl e
           | Inr (rs, self', outbuf') \<Rightarrow>
               if False \<in> set rs then Inr (GST_FLOW_ERROR, self', outbuf', [])
               else Inr (GST_FLOW_OK, self', outbuf',
                         [\<lparr>structure_name = ''VMAF'',
                           structure_fields = [(''time'', position)]\<rparr>])))"
  by (auto simp: gst_vmaf_aggregate_frames_def aggregate_loop_noref
           split: list.splits sum.splits prod.splits)

text \<open>
  Claim C3, evaluated. The element is activated with three sink pads, the reference
  and two comparison streams, and every cycle brings a frame on each pad. In the first
  cycle the run of stream 0 throws: both streams are dispatched and the cycle returns
  \<open>GST_FLOW_ERROR\<close>. In the second cycle the dispatch of stream 0 returns \<open>FALSE\<close>
  through the early \<open>return\<close> of \<open>compare_frames\<close>, which leaves \<open>check_error\<close>
  locked; stream 1 is dispatched and the cycle returns \<open>GST_FLOW_ERROR\<close>. The third
  cycle does not return: the dispatch of stream 0 blocks on \<open>check_error\<close>, so the
  dispatch of stream 1, which would have returned \<open>TRUE\<close>, is never attempted, and
  no flow return is produced.
\<close>

theorem cycle_blocks_after_error:
  "vmaf_threads_open 3 gst_vmaf_init = Inr two_streams \<and>
   gst_vmaf_aggregate_frames stub_libs first_fails two_streams three_pads [0, 0] 0 =
     Inr (GST_FLOW_ERROR, after_failed_cycle, [1, 2], []) \<and>
   gst_vmaf_aggregate_frames stub_libs all_read after_failed_cycle three_pads [0, 0] 40 =
     Inr (GST_FLOW_ERROR, after_early_return, [1, 2], []) \<and>
   gst_vmaf_aggregate_frames stub_libs all_read after_early_return three_pads [0, 0] 80 =
     Inl Blocked \<and>
   compare_frames stub_libs after_early_return (all_read 0) ref_2x1 cmp_2x1 [0, 0] 0 =
     Inl Blocked \<and>
   compare_frames stub_libs after_early_return (all_read 1) ref_2x1 cmp_1x2 [0, 0] 1 =
     Inr (True, after_early_return, [1, 2])"
  by (simp add: model_defs vmaf_threads_open_def upt_rec gst_vmaf_aggregate_frames_def
        three_pads_def after_failed_cycle_def after_early_return_def two_streams_def
        first_fails_def all_read_def errored_helper_def served_helper_def)

section \<open>Geometry of the comparison frame\<close>

text \<open>
  Claim C9, as stated, fails: a comparison frame of 1 by 2 against a reference of 2 by 1,
  dispatched as the first pair of a stream, is submitted, read by the worker and
  answered with \<open>TRUE\<close>; no error is recorded.
\<close>

theorem geometry_mismatch_counterexample:
  "info_width cmp_1x2 \<noteq> info_width ref_2x1 \<and> info_height cmp_1x2 \<noteq> info_height ref_2x1 \<and>
   frame_width (helper_struct_pointer one_stream ! 0) = 0 \<and>
   compare_frames stub_libs one_stream [Engine_reads [0, 0] [0, 0] 8] ref_2x1 cmp_1x2 [0, 0] 0 =
     Inr (True, one_stream\<lparr>helper_struct_pointer := [served_helper 0]\<rparr>, [1, 2]) \<and>
   error (served_helper 0) = 0 \<and> reading_correct (served_helper 0)"
  by (simp add: model_defs one_stream_def served_helper_def)

text \<open>
  Claim C9, amended. \<open>compare_frames\<close> never reads the comparison frame's width or
  height: whatever geometry that frame declares, the call does the same and returns
  the same. At worker start the recorded geometry is the reference frame's.
\<close>

theorem comparison_geometry_never_read:
  "compare_frames X self ws ref (cmp\<lparr>info_width := w, info_height := h\<rparr>) outbuf k =
     compare_frames X self ws ref cmp outbuf k \<and>
   (compare_frames_helper X self ws ref cmp outbuf hp = Inr (r, hp', outbuf') \<and>
    (frame_width hp = 0 \<or> frame_height hp = 0) \<longrightarrow>
      frame_width hp' = info_width ref \<and> frame_height hp' = info_height ref)"
proof (rule conjI)
  show "compare_frames X self ws ref (cmp\<lparr>info_width := w, info_height := h\<rparr>) outbuf k =
     compare_frames X self ws ref cmp outbuf k"
  proof -
    have b: "buffer (cmp\<lparr>info_width := w, info_height := h\<rparr>) = buffer cmp" by simp
    show ?thesis
      unfolding compare_frames_def compare_frames_helper_def b by (rule refl)
  qed
next
  show "compare_frames_helper X self ws ref cmp outbuf hp = Inr (r, hp', outbuf') \<and>
    (frame_width hp = 0 \<or> frame_height hp = 0) \<longrightarrow>
      frame_width hp' = info_width ref \<and> frame_height hp' = info_height ref"
    using compare_frames_helper_fields(3)[of X self ws ref cmp outbuf hp r hp' outbuf']
    by (auto simp: geom_def)
qed

lemma first_dispatch_mismatched:
  "compare_frames_helper stub_libs one_stream [Engine_reads [0, 0] [0, 0] 8] ref_2x1 cmp_1x2
     [0, 0] (helper_init 0) = Inr (True, served_helper 0, [1, 2])"
  by (simp add: model_defs one_stream_def served_helper_def)

theorem comparison_geometry_never_read_witness:
  "compare_frames_helper stub_libs one_stream [Engine_reads [0, 0] [0, 0] 8] ref_2x1 cmp_1x2
     [0, 0] (helper_init 0) = Inr (True, served_helper 0, [1, 2]) \<and>
   frame_width (helper_init 0) = 0 \<and>
   frame_width (served_helper 0) = info_width ref_2x1 \<and>
   frame_height (served_helper 0) = info_height ref_2x1 \<and>
   compare_frames stub_libs one_stream [Engine_reads [0, 0] [0, 0] 8] ref_2x1
     (cmp_2x1\<lparr>info_width := 1, info_height := 2\<rparr>) [0, 0] 0 =
   compare_frames stub_libs one_stream [Engine_reads [0, 0] [0, 0] 8] ref_2x1 cmp_2x1 [0, 0] 0"
proof -
  have z: "frame_width (helper_init 0) = 0" by (simp add: helper_init_def)
  note t = comparison_geometry_never_read[where X = stub_libs and self = one_stream
      and ws = "[Engine_reads [0, 0] [0, 0] 8]" and ref = ref_2x1 and cmp = cmp_2x1
      and w = 1 and h = 2 and outbuf = "[0, 0]" and k = 0]
  note u = comparison_geometry_never_read[where X = stub_libs and self = one_stream
      and ws = "[Engine_reads [0, 0] [0, 0] 8]" and ref = ref_2x1 and cmp = cmp_1x2
      and w = 1 and h = 2 and outbuf = "[0, 0]" and k = 0
      and hp = "helper_init 0" and r = True and hp' = "served_helper 0" and outbuf' = "[1, 2]"]
  from u first_dispatch_mismatched z
  have "frame_width (served_helper 0) = info_width ref_2x1 \<and>
        frame_height (served_helper 0) = info_height ref_2x1"
    by blast
  with t first_dispatch_mismatched z show ?thesis by blast
qed

section \<open>Frame numbers of the report\<close>

lemma frame_numbers_step:
  "\<not> is_size z \<Longrightarrow> frame_numbers (x # z # zs) = frame_numbers (z # zs)"
  by (cases x; cases z) simp_all

lemma frame_numbers_single [simp]: "frame_numbers [x] = []"
  by (cases x) simp_all

text \<open>Chunks that hold no \<open>size_t\<close> contribute no frame number.\<close>

lemma frame_numbers_skip:
  "list_all (\<lambda>c. \<not> is_size c) xs \<Longrightarrow> ys = [] \<or> \<not> is_size (hd ys) \<Longrightarrow>
     frame_numbers (xs @ ys) = frame_numbers ys"
proof (induction xs)
  case Nil
  then show ?case by simp
next
  case (Cons x xs)
  show ?case
  proof (cases "xs @ ys")
    case Nil
    then show ?thesis by simp
  next
    case (Cons z zs)
    have "\<not> is_size z"
    proof (cases xs)
      case Nil
      with Cons Cons.prems(2) show ?thesis by auto
    next
      case (Cons x' xs')
      with \<open>xs @ ys = z # zs\<close> Cons.prems(1) show ?thesis by auto
    qed
    then have "frame_numbers (x # z # zs) = frame_numbers (z # zs)"
      by (rule frame_numbers_step)
    with Cons Cons.IH Cons.prems show ?thesis by simp
  qed
qed

lemma frame_metrics_loop_no_size:
  "frame_metrics_loop r keys i js = Inr cs \<Longrightarrow> list_all (\<lambda>c. \<not> is_size c) cs"
  by (induction js arbitrary: cs) (auto split: sum.splits if_splits)

lemma log_metrics_loop_no_size: "list_all (\<lambda>c. \<not> is_size c) (log_metrics_loop keys js)"
  by (induction js) auto

lemma log_params_no_size: "list_all (\<lambda>c. \<not> is_size c) (log_params X p w h n nb bs)"
  by (simp add: log_params_def)

lemma log_metrics_no_size: "list_all (\<lambda>c. \<not> is_size c) (log_metrics keys)"
  by (simp add: log_metrics_def log_metrics_loop_no_size)

lemma log_aggregates_no_size: "list_all (\<lambda>c. \<not> is_size c) (log_aggregates a b c d)"
  by (simp add: log_aggregates_def log_entry_if_nonzero_def)

text \<open>One record of the \<open>frames\<close> array carries exactly one frame number.\<close>

lemma log_frame_numbers:
  assumes "log_frame r keys n num i = Inr c" and "ys = [] \<or> \<not> is_size (hd ys)"
  shows "frame_numbers (c @ ys) = frame_num i n # frame_numbers ys"
    and "c \<noteq> [] \<and> \<not> is_size (hd c)"
proof -
  from assms(1) obtain ms where ms: "frame_metrics_loop r keys i [0..<length keys] = Inr ms"
    and c: \<open>c = [C_lit ''    {'', C_endl, C_lit frameNum_label, C_size (frame_num i n)] @
               ([C_lit '','', C_endl, C_lit ''      "metrics":{'', C_endl] @ ms @
                [C_lit ''      }'', C_endl] @
                (if i = num - 1 then [C_lit ''    }'', C_endl] else [C_lit ''    },'', C_endl]))\<close>
    by (auto simp: log_frame_def split: sum.splits)
  let ?rest = \<open>[C_lit '','', C_endl, C_lit ''      "metrics":{'', C_endl] @ ms @
                [C_lit ''      }'', C_endl] @
                (if i = num - 1 then [C_lit ''    }'', C_endl] else [C_lit ''    },'', C_endl])\<close>
  have ns: "list_all (\<lambda>c. \<not> is_size c) ?rest"
    using frame_metrics_loop_no_size[OF ms] by simp
  have "frame_numbers (c @ ys) = frame_num i n # frame_numbers (?rest @ ys)"
    unfolding c by simp
  also have "frame_numbers (?rest @ ys) = frame_numbers ys"
    using ns assms(2) by (rule frame_numbers_skip)
  finally show "frame_numbers (c @ ys) = frame_num i n # frame_numbers ys" .
  show "c \<noteq> [] \<and> \<not> is_size (hd c)" unfolding c by simp
qed

lemma log_frames_loop_numbers:
  "log_frames_loop r keys n num is = Inr cs \<Longrightarrow> ys = [] \<or> \<not> is_size (hd ys) \<Longrightarrow>
     frame_numbers (cs @ ys) = map (\<lambda>i. frame_num i n) is @ frame_numbers ys \<and>
     (cs @ ys = [] \<or> \<not> is_size (hd (cs @ ys)))"
proof (induction "is" arbitrary: cs)
  case Nil
  then show ?case by auto
next
  case (Cons i "is")
  from Cons.prems(1) obtain c cs' where c: "log_frame r keys n num i = Inr c"
    and cs': "log_frames_loop r keys n num is = Inr cs'" and cs: "cs = c @ cs'"
    by (auto split: sum.splits)
  from Cons.IH[OF cs' Cons.prems(2)]
  have ih: "frame_numbers (cs' @ ys) = map (\<lambda>i. frame_num i n) is @ frame_numbers ys"
    and hd: "cs' @ ys = [] \<or> \<not> is_size (hd (cs' @ ys))" by auto
  from log_frame_numbers[OF c hd] ih
  have "frame_numbers (c @ cs' @ ys) = frame_num i n # map (\<lambda>i. frame_num i n) is @ frame_numbers ys"
    and "c \<noteq> [] \<and> \<not> is_size (hd c)" by auto
  then show ?case using cs by (cases c) auto
qed

lemma RunVMAF_log_frame_numbers:
  assumes "RunVMAF_log X self m r w h v nb bs = Inr report"
    and "get_scores r ''vmaf'' = Some vs"
  shows "frame_numbers report =
           map (\<lambda>i. frame_num i (int_of_guint (subsample self))) [0..<length vs]"
proof -
  let ?n = "int_of_guint (subsample self)"
  from assms obtain frames where
    fr: "log_frames_loop r (get_keys r) ?n (length vs) [0..<length vs] = Inr frames"
    and rep: \<open>report = (log_params X (model_path self) w h ?n nb bs @ log_metrics (get_keys r) @
                 [C_lit ''  "frames":['', C_endl]) @
                frames @ ([C_lit ''  ],'', C_endl] @
                  log_aggregates v (score_if_present X m r ''psnr'')
                    (score_if_present X m r ''ssim'') (score_if_present X m r ''ms_ssim''))\<close>
    by (auto simp: RunVMAF_log_def Let_def split: sum.splits)
  let ?pre = \<open>log_params X (model_path self) w h ?n nb bs @ log_metrics (get_keys r) @
                 [C_lit ''  "frames":['', C_endl]\<close>
  let ?post = "[C_lit ''  ],'', C_endl] @
                  log_aggregates v (score_if_present X m r ''psnr'')
                    (score_if_present X m r ''ssim'') (score_if_present X m r ''ms_ssim'')"
  have pre: "list_all (\<lambda>c. \<not> is_size c) ?pre"
    by (simp add: log_params_no_size log_metrics_no_size)
  have post: "list_all (\<lambda>c. \<not> is_size c) ?post"
    by (simp add: log_aggregates_no_size)
  have phd: "?post = [] \<or> \<not> is_size (hd ?post)" by simp
  from log_frames_loop_numbers[OF fr phd]
  have f: "frame_numbers (frames @ ?post) =
             map (\<lambda>i. frame_num i ?n) [0..<length vs] @ frame_numbers ?post"
    and fhd: "frames @ ?post = [] \<or> \<not> is_size (hd (frames @ ?post))" by auto
  have "frame_numbers ?post = frame_numbers (?post @ [])" by simp
  also have "\<dots> = frame_numbers []" using post by (rule frame_numbers_skip) simp
  finally have p0: "frame_numbers ?post = []" by simp
  have "frame_numbers report = frame_numbers (?pre @ (frames @ ?post))"
    unfolding rep by simp
  also have "\<dots> = frame_numbers (frames @ ?post)"
    using pre fhd by (rule frame_numbers_skip)
  finally show ?thesis using f p0 by simp
qed

lemma below_ceiling:
  assumes "0 < s"
  shows "(int i < \<lceil>real n_frames / real s\<rceil>) = (i * s < n_frames)"
proof -
  have "(int i < \<lceil>real n_frames / real s\<rceil>) = (real i < real n_frames / real s)"
    by (simp add: less_ceiling_iff)
  also have "\<dots> = (real i * real s < real n_frames)"
    using assms by (simp add: pos_less_divide_eq)
  also have "\<dots> = (i * s < n_frames)"
    by (metis of_nat_less_iff of_nat_mult)
  finally show ?thesis .
qed

lemma int_of_guint_small: "u < 2 ^ 31 \<Longrightarrow> int_of_guint u = int u"
  by (simp add: int_of_guint_def)

lemma frame_num_exact:
  assumes "i * s < 2 ^ 64" and "s < 2 ^ 64"
  shows "frame_num i (int s) = i * s"
proof -
  have a: "int s mod 2 ^ 64 = int s" using assms(2) by simp
  have "int i * int s = int (i * s)" by simp
  moreover have "int (i * s) mod 2 ^ 64 = int (i * s)"
    using assms(1) by (simp del: of_nat_mult)
  ultimately show ?thesis
    unfolding frame_num_def a by (simp del: of_nat_mult)
qed

text \<open>The multiples of the stride below \<open>n\<close>, and how many there are.\<close>

lemma stride_multiples:
  assumes "0 < s"
  shows "filter (\<lambda>k. k mod s = 0) [0..<n] = map (\<lambda>i. i * s) [0..<nat \<lceil>real n / real s\<rceil>]"
proof (rule sorted_distinct_set_unique)
  show "sorted (filter (\<lambda>k. k mod s = 0) [0..<n])" by (simp add: sorted_wrt_filter)
  show "distinct (filter (\<lambda>k. k mod s = 0) [0..<n])" by simp
  show "sorted (map (\<lambda>i. i * s) [0..<nat \<lceil>real n / real s\<rceil>])"
    by (simp add: sorted_map sorted_wrt_iff_nth_less)
  show "distinct (map (\<lambda>i. i * s) [0..<nat \<lceil>real n / real s\<rceil>])"
    using assms by (simp add: distinct_map inj_on_def)
  show "set (filter (\<lambda>k. k mod s = 0) [0..<n]) =
        set (map (\<lambda>i. i * s) [0..<nat \<lceil>real n / real s\<rceil>])"
  proof (rule set_eqI)
    fix k
    have lt: "(i < nat \<lceil>real n / real s\<rceil>) = (i * s < n)" for i
      using below_ceiling[OF assms, of i n] by linarith
    show "k \<in> set (filter (\<lambda>k. k mod s = 0) [0..<n]) \<longleftrightarrow>
          k \<in> set (map (\<lambda>i. i * s) [0..<nat \<lceil>real n / real s\<rceil>])"
    proof
      assume "k \<in> set (filter (\<lambda>k. k mod s = 0) [0..<n])"
      then have k: "k < n" "k mod s = 0" by simp_all
      from k(2) have "k div s * s = k" by (simp add: mod_0_imp_dvd)
      then obtain j where j: "k = j * s" by metis
      with k lt have "j < nat \<lceil>real n / real s\<rceil>" by simp
      with j show "k \<in> set (map (\<lambda>i. i * s) [0..<nat \<lceil>real n / real s\<rceil>])" by auto
    next
      assume "k \<in> set (map (\<lambda>i. i * s) [0..<nat \<lceil>real n / real s\<rceil>])"
      then obtain i where "i < nat \<lceil>real n / real s\<rceil>" "k = i * s" by auto
      with lt show "k \<in> set (filter (\<lambda>k. k mod s = 0) [0..<n])" by simp
    qed
  qed
qed

lemma ceiling_nonneg: "int (nat \<lceil>real n / real s\<rceil>) = \<lceil>real n / real s\<rceil>"
  using ceiling_mono[of 0 "real n / real s"] by simp

text \<open>The \<open>vmaf\<close> series of the engine's run has one score per frame on the stride.\<close>

lemma engine_run_series:
  assumes "engine_run metrics s pulls = Returns r" and "get_scores r ''vmaf'' = Some vs"
  shows "length vs =
           length (filter (\<lambda>k. int k mod s = 0) [0..<length (pulled_frames pulls)])"
proof -
  let ?F = "\<lambda>f. map (\<lambda>(ref_data, main_data). f ref_data main_data)
                    (on_stride s (pulled_frames pulls))"
  from assms(1) have r: "r = map (\<lambda>(name, f). (name, ?F f)) metrics"
    by (simp add: engine_run_def)
  have "map_of r ''vmaf'' = map_option ?F (map_of metrics ''vmaf'')"
    unfolding r by (simp add: map_of_map)
  with assms(2) obtain f where "vs = ?F f"
    by (auto simp: get_scores_def)
  then show ?thesis by (simp add: on_stride_def)
qed

text \<open>
  Claim C6. On the code, for whatever the engine returned: the report holds one
  per-frame record per score of the \<open>vmaf\<close> series, and the record at position \<open>i\<close>
  carries the frame number \<open>i\<close> times the stride (the stride lies in 1..128, the
  range of the \<open>subsample\<close> property, and a series has fewer than \<open>2^57\<close> scores, so
  the \<open>size_t\<close> product does not wrap). With the engine's run as the spec has it,
  scoring every stride-th of the frames it pulled: the frame numbers of the report
  are exactly the indices below the total number of frames that lie on the stride,
  and the number of records is the ceiling of the total number of frames divided by
  the stride.
\<close>

theorem report_frame_numbers:
  "(RunVMAF X self (Returns r) h = Inr (ret, h', console, Some report) \<and>
    get_scores r ''vmaf'' = Some vs \<and>
    1 \<le> subsample self \<and> subsample self \<le> 128 \<and> length vs < 2 ^ 57 \<longrightarrow>
      frame_numbers report = map (\<lambda>i. i * subsample self) [0..<length vs]) \<and>
   (RunVMAF X self (engine_run metrics (int_of_guint (subsample self)) pulls) h =
      Inr (ret, h', console, Some report) \<and>
    1 \<le> subsample self \<and> subsample self \<le> 128 \<and> length (pulled_frames pulls) < 2 ^ 64 \<longrightarrow>
      frame_numbers report =
        filter (\<lambda>k. k mod subsample self = 0) [0..<length (pulled_frames pulls)] \<and>
      int (length (frame_numbers report)) =
        \<lceil>real (length (pulled_frames pulls)) / real (subsample self)\<rceil>)"
proof -
  let ?s = "subsample self"
  have core: "frame_numbers report = map (\<lambda>i. i * ?s) [0..<length vs]"
    if run: "RunVMAF X self (Returns r) h = Inr (ret, h', console, Some report)"
      and vs: "get_scores r ''vmaf'' = Some vs"
      and s: "1 \<le> ?s" "?s \<le> 128"
      and nowrap: "\<And>i. i < length vs \<Longrightarrow> i * ?s < 2 ^ 64"
    for r vs
  proof -
    from s have s': "?s < 2 ^ 31" "?s < 2 ^ 64" by simp_all
    from run obtain v nb bs where
      "RunVMAF_log X self (setScoreAggregateMethod (pool_method self)) r (frame_width h)
         (frame_height h) v nb bs = Inr report"
      by (rule RunVMAF_report_log)
    from RunVMAF_log_frame_numbers[OF this vs]
    have fn: "frame_numbers report = map (\<lambda>i. frame_num i (int ?s)) [0..<length vs]"
      by (simp add: int_of_guint_small[OF s'(1)])
    have "frame_num i (int ?s) = i * ?s" if "i < length vs" for i
      using nowrap[OF that] s'(2) by (rule frame_num_exact)
    then show ?thesis unfolding fn by simp
  qed
  have code: "frame_numbers report = map (\<lambda>i. i * ?s) [0..<length vs]"
    if run: "RunVMAF X self (Returns r) h = Inr (ret, h', console, Some report)"
      and vs: "get_scores r ''vmaf'' = Some vs"
      and s: "1 \<le> ?s" "?s \<le> 128" and rec: "length vs < 2 ^ 57"
  proof (rule core[OF run vs s])
    fix i assume "i < length vs"
    with rec have "i < 2 ^ 57" by simp
    then have "i * ?s < 2 ^ 57 * ?s" using s(1) by simp
    also have "\<dots> \<le> 2 ^ 57 * 128" using s(2) by simp
    finally show "i * ?s < 2 ^ 64" by simp
  qed
  have spec: "frame_numbers report =
        filter (\<lambda>k. k mod ?s = 0) [0..<length (pulled_frames pulls)] \<and>
      int (length (frame_numbers report)) =
        \<lceil>real (length (pulled_frames pulls)) / real ?s\<rceil>"
    if run: "RunVMAF X self (engine_run metrics (int_of_guint ?s) pulls) h =
               Inr (ret, h', console, Some report)"
      and s: "1 \<le> ?s" "?s \<le> 128" and n: "length (pulled_frames pulls) < 2 ^ 64"
  proof -
    let ?n = "length (pulled_frames pulls)"
    let ?m = "nat \<lceil>real ?n / real ?s\<rceil>"
    from s have pos: "0 < ?s" and g: "int_of_guint ?s = int ?s"
      by (simp_all add: int_of_guint_small)
    obtain r where r: "engine_run metrics (int_of_guint ?s) pulls = Returns r"
      by (simp add: engine_run_def)
    from run r obtain v nb bs where
      "RunVMAF_log X self (setScoreAggregateMethod (pool_method self)) r (frame_width h)
         (frame_height h) v nb bs = Inr report"
      by (auto elim: RunVMAF_report_log)
    then obtain vs where vs: "get_scores r ''vmaf'' = Some vs"
      by (auto simp: RunVMAF_log_def split: option.splits)
    have mult: "filter (\<lambda>k. k mod ?s = 0) [0..<?n] = map (\<lambda>i. i * ?s) [0..<?m]"
      using pos by (rule stride_multiples)
    have "(int k mod int ?s = 0) = (k mod ?s = 0)" for k
      by (simp flip: of_nat_mod)
    with engine_run_series[OF r vs]
    have "length vs = length (filter (\<lambda>k. k mod ?s = 0) [0..<?n])"
      unfolding g by simp
    then have len: "length vs = ?m"
      unfolding mult by simp
    have nowrap: "i * ?s < 2 ^ 64" if "i < length vs" for i
    proof -
      from that len have "i * ?s < ?n" using below_ceiling[OF pos, of i ?n] by linarith
      with n show ?thesis by simp
    qed
    from run r have run': "RunVMAF X self (Returns r) h = Inr (ret, h', console, Some report)"
      by simp
    from core[OF run' vs s nowrap]
    have "frame_numbers report = map (\<lambda>i. i * ?s) [0..<length vs]" by simp
    then have f: "frame_numbers report = filter (\<lambda>k. k mod ?s = 0) [0..<?n]"
      unfolding mult len .
    have "length (frame_numbers report) = ?m"
      unfolding f mult by simp
    then have "int (length (frame_numbers report)) = \<lceil>real ?n / real ?s\<rceil>"
      using ceiling_nonneg[of ?n ?s] by (simp only:)
    with f show ?thesis by (simp only:)
  qed
  from code spec show ?thesis by blast
qed

lemma frame_numbers_stride3: "frame_numbers report_stride3 = [0, 3, 6, 9]"
  by (simp add: report_stride3_def frameNum_label_def)

lemma engine_run_stride3:
  "engine_run stub_metrics (int_of_guint 3) ten_pulls = Returns four_scores"
  by (simp add: engine_run_def stub_metrics_def ten_pulls_def on_stride_def four_scores_def
        int_of_guint_def upt_rec)

lemma pulled_ten: "length (pulled_frames ten_pulls) = 10"
  by (simp add: ten_pulls_def upt_rec)

theorem report_frame_numbers_witness:
  "RunVMAF stub_libs logging_vmaf (Returns four_scores) ready_helper =
     Inr (0, ready_helper\<lparr>score := 93, error := 0\<rparr>, [''VMAF score (mean) = 93''],
          Some report_stride3) \<and>
   get_scores four_scores ''vmaf'' = Some [90, 92, 94, 96] \<and>
   engine_run stub_metrics (int_of_guint (subsample logging_vmaf)) ten_pulls =
     Returns four_scores \<and>
   subsample logging_vmaf = 3 \<and> length (pulled_frames ten_pulls) = 10 \<and>
   frame_numbers report_stride3 = map (\<lambda>i. i * 3) [0..<length [90, 92, 94, 96 :: real]] \<and>
   frame_numbers report_stride3 = filter (\<lambda>k. k mod 3 = 0) [0..<10] \<and>
   int (length (frame_numbers report_stride3)) = \<lceil>real 10 / real 3\<rceil> \<and>
   frame_numbers report_stride3 = [0, 3, 6, 9]"
proof -
  have g: "get_scores four_scores ''vmaf'' = Some [90, 92, 94, 96]"
    by (simp add: get_scores_def four_scores_def)
  have s: "subsample logging_vmaf = 3"
    by (simp add: logging_vmaf_def gst_vmaf_init_def)
  have e: "engine_run stub_metrics (int_of_guint (subsample logging_vmaf)) ten_pulls =
      Returns four_scores"
    unfolding s by (rule engine_run_stride3)
  note t = report_frame_numbers[where X = stub_libs and self = logging_vmaf
      and r = four_scores and h = ready_helper and ret = 0
      and h' = "ready_helper\<lparr>score := 93, error := 0\<rparr>"
      and console = "[''VMAF score (mean) = 93'']" and report = report_stride3
      and vs = "[90, 92, 94, 96]" and metrics = stub_metrics and pulls = ten_pulls]
  have hyp1: "RunVMAF stub_libs logging_vmaf (Returns four_scores) ready_helper =
       Inr (0, ready_helper\<lparr>score := 93, error := 0\<rparr>, [''VMAF score (mean) = 93''],
            Some report_stride3) \<and>
     get_scores four_scores ''vmaf'' = Some [90, 92, 94, 96] \<and>
     1 \<le> subsample logging_vmaf \<and> subsample logging_vmaf \<le> 128 \<and>
     length [90, 92, 94, 96 :: real] < 2 ^ 57"
    using run_stride3 g s by simp
  have hyp2: "RunVMAF stub_libs logging_vmaf
         (engine_run stub_metrics (int_of_guint (subsample logging_vmaf)) ten_pulls)
         ready_helper =
       Inr (0, ready_helper\<lparr>score := 93, error := 0\<rparr>, [''VMAF score (mean) = 93''],
            Some report_stride3) \<and>
     1 \<le> subsample logging_vmaf \<and> subsample logging_vmaf \<le> 128 \<and>
     length (pulled_frames ten_pulls) < 2 ^ 64"
    using run_stride3 e s pulled_ten by simp
  have c1: "frame_numbers report_stride3 = map (\<lambda>i. i * 3) [0..<length [90, 92, 94, 96 :: real]]"
    using conjunct1[OF t, THEN mp, OF hyp1] unfolding s .
  have c2: "frame_numbers report_stride3 = filter (\<lambda>k. k mod 3 = 0) [0..<10] \<and>
            int (length (frame_numbers report_stride3)) = \<lceil>real 10 / real 3\<rceil>"
    using conjunct2[OF t, THEN mp, OF hyp2] unfolding s pulled_ten .
  from c1 c2 run_stride3 g e s pulled_ten frame_numbers_stride3 show ?thesis
    by blast
qed

section \<open>Aggregate entries of the report\<close>

lemmas label_defs = is_label_def PSNR_label_def SSIM_label_def MS_SSIM_label_def

lemma log_params_no_label: "list_all (\<lambda>c. \<not> is_label c) (log_params X p w h n nb bs)"
  by (simp add: log_params_def label_defs)

lemma log_metrics_loop_no_label: "list_all (\<lambda>c. \<not> is_label c) (log_metrics_loop keys js)"
  by (induction js) (auto simp: label_defs)

lemma log_metrics_no_label: "list_all (\<lambda>c. \<not> is_label c) (log_metrics keys)"
  by (simp add: log_metrics_def log_metrics_loop_no_label) (simp add: label_defs)

lemma frame_metrics_loop_no_label:
  "frame_metrics_loop r keys i js = Inr cs \<Longrightarrow> list_all (\<lambda>c. \<not> is_label c) cs"
  by (induction js arbitrary: cs) (auto simp: label_defs split: sum.splits if_splits)

lemma log_frame_no_label:
  "log_frame r keys n num i = Inr c \<Longrightarrow> list_all (\<lambda>c. \<not> is_label c) c"
  by (auto simp: log_frame_def frameNum_label_def split: sum.splits if_splits
           dest!: frame_metrics_loop_no_label)
     (simp_all add: label_defs)

lemma log_frames_loop_no_label:
  "log_frames_loop r keys n num is = Inr cs \<Longrightarrow> list_all (\<lambda>c. \<not> is_label c) cs"
  by (induction "is" arbitrary: cs) (auto split: sum.splits dest: log_frame_no_label)

text \<open>In the aggregate section an optional entry stands exactly when its value is not zero.\<close>

lemma log_aggregates_labels:
  "(C_lit PSNR_label \<in> set (log_aggregates v p s m)) = (p \<noteq> 0)"
  "(C_lit SSIM_label \<in> set (log_aggregates v p s m)) = (s \<noteq> 0)"
  "(C_lit MS_SSIM_label \<in> set (log_aggregates v p s m)) = (m \<noteq> 0)"
  by (auto simp: log_aggregates_def log_entry_if_nonzero_def label_defs)

lemma no_label_notin:
  "list_all (\<lambda>c. \<not> is_label c) cs \<Longrightarrow>
     C_lit PSNR_label \<notin> set cs \<and> C_lit SSIM_label \<notin> set cs \<and> C_lit MS_SSIM_label \<notin> set cs"
  by (auto simp: list_all_iff is_label_def)

lemma RunVMAF_log_labels:
  assumes "RunVMAF_log X self m r w h v nb bs = Inr report"
  shows "(C_lit PSNR_label \<in> set report) = (score_if_present X m r ''psnr'' \<noteq> 0)"
    and "(C_lit SSIM_label \<in> set report) = (score_if_present X m r ''ssim'' \<noteq> 0)"
    and "(C_lit MS_SSIM_label \<in> set report) = (score_if_present X m r ''ms_ssim'' \<noteq> 0)"
proof -
  from assms obtain vs where gs: "get_scores r ''vmaf'' = Some vs"
    by (auto simp: RunVMAF_log_def split: option.splits)
  with assms obtain frames where
    fr: "log_frames_loop r (get_keys r) (int_of_guint (subsample self)) (length vs)
           [0..<length vs] = Inr frames"
    and rep: \<open>report = (log_params X (model_path self) w h (int_of_guint (subsample self)) nb bs @
                log_metrics (get_keys r) @ [C_lit ''  "frames":['', C_endl] @ frames @
                [C_lit ''  ],'', C_endl]) @
                  log_aggregates v (score_if_present X m r ''psnr'')
                    (score_if_present X m r ''ssim'') (score_if_present X m r ''ms_ssim'')\<close>
    by (auto simp: RunVMAF_log_def Let_def split: sum.splits)
  define pre where
    \<open>pre = log_params X (model_path self) w h (int_of_guint (subsample self)) nb bs @
           log_metrics (get_keys r) @ [C_lit ''  "frames":['', C_endl] @ frames @
           [C_lit ''  ],'', C_endl]\<close>
  define agg where
    "agg = log_aggregates v (score_if_present X m r ''psnr'')
             (score_if_present X m r ''ssim'') (score_if_present X m r ''ms_ssim'')"
  have "list_all (\<lambda>c. \<not> is_label c) pre"
    unfolding pre_def using log_frames_loop_no_label[OF fr]
    by (simp add: log_params_no_label log_metrics_no_label) (simp add: label_defs)
  from no_label_notin[OF this]
  have n: "C_lit PSNR_label \<notin> set pre" "C_lit SSIM_label \<notin> set pre"
    "C_lit MS_SSIM_label \<notin> set pre" by simp_all
  have r: "set report = set pre \<union> set agg"
    unfolding rep pre_def agg_def by (simp only: set_append)
  show "(C_lit PSNR_label \<in> set report) = (score_if_present X m r ''psnr'' \<noteq> 0)"
    unfolding r using n(1) by (simp add: agg_def log_aggregates_labels)
  show "(C_lit SSIM_label \<in> set report) = (score_if_present X m r ''ssim'' \<noteq> 0)"
    unfolding r using n(2) by (simp add: agg_def log_aggregates_labels)
  show "(C_lit MS_SSIM_label \<in> set report) = (score_if_present X m r ''ms_ssim'' \<noteq> 0)"
    unfolding r using n(3) by (simp add: agg_def log_aggregates_labels)
qed

lemma score_if_present_absent: "\<not> has_scores r k \<Longrightarrow> score_if_present X m r k = 0"
  by (simp add: score_if_present_def)

text \<open>
  Claim C7, as stated, fails: with the PSNR, SSIM and MS-SSIM toggles off and no such
  series in the engine's result, the report written has no PSNR, SSIM or MS-SSIM
  entry at all, and the value 0.0 appears nowhere in it.
\<close>

theorem zero_placeholder_counterexample:
  "\<not> vmaf_config_psnr logging_vmaf \<and> \<not> vmaf_config_ssim logging_vmaf \<and>
   \<not> vmaf_config_ms_ssim logging_vmaf \<and>
   RunVMAF stub_libs logging_vmaf (Returns four_scores) ready_helper =
     Inr (0, ready_helper\<lparr>score := 93, error := 0\<rparr>, [''VMAF score (mean) = 93''],
          Some report_stride3) \<and>
   C_lit PSNR_label \<notin> set report_stride3 \<and>
   C_lit SSIM_label \<notin> set report_stride3 \<and>
   C_lit MS_SSIM_label \<notin> set report_stride3 \<and>
   C_double 0 \<notin> set report_stride3"
  using run_stride3
  by (simp add: logging_vmaf_def gst_vmaf_init_def report_stride3_def label_defs)

text \<open>The aggregate section opens with the VMAF entry, whatever its value.\<close>

lemma RunVMAF_log_vmaf_entry:
  assumes "RunVMAF_log X self m r w h v nb bs = Inr report"
  shows \<open>\<exists>pre post. report = pre @ [C_lit ''  "VMAF score":'', C_double v] @ post\<close>
proof -
  from assms obtain vs where gs: "get_scores r ''vmaf'' = Some vs"
    by (auto simp: RunVMAF_log_def split: option.splits)
  with assms obtain frames where
    rep: \<open>report = (log_params X (model_path self) w h (int_of_guint (subsample self)) nb bs @
                log_metrics (get_keys r) @ [C_lit ''  "frames":['', C_endl] @ frames @
                [C_lit ''  ],'', C_endl]) @
                  log_aggregates v (score_if_present X m r ''psnr'')
                    (score_if_present X m r ''ssim'') (score_if_present X m r ''ms_ssim'')\<close>
    by (auto simp: RunVMAF_log_def Let_def split: sum.splits)
  have \<open>\<exists>post. log_aggregates v p s ms = [C_lit ''  "VMAF score":'', C_double v] @ post\<close>
    for p s ms
    by (simp add: log_aggregates_def)
  then obtain post where
    \<open>log_aggregates v (score_if_present X m r ''psnr'') (score_if_present X m r ''ssim'')
        (score_if_present X m r ''ms_ssim'') = [C_lit ''  "VMAF score":'', C_double v] @ post\<close>
    by blast
  with rep show ?thesis by blast
qed

text \<open>
  Claim C7, amended. In a report written by \<open>RunVMAF\<close>, the aggregate entry of PSNR,
  of SSIM and of MS-SSIM is present exactly when that aggregate is not zero. For a
  metric with no series in the engine's result, as for a metric that was not selected,
  the aggregate keeps its initial 0.0 and the entry is omitted. Only the VMAF entry is
  always written: it stands in every report, with the pooled \<open>vmaf\<close> score that was
  stored in the helper.
\<close>

theorem unselected_aggregates_omitted:
  \<open>RunVMAF X self (Returns r) h = Inr (ret, h', console, Some report) \<longrightarrow>
     ((C_lit PSNR_label \<in> set report) =
        (score_if_present X (setScoreAggregateMethod (pool_method self)) r ''psnr'' \<noteq> 0)) \<and>
     ((C_lit SSIM_label \<in> set report) =
        (score_if_present X (setScoreAggregateMethod (pool_method self)) r ''ssim'' \<noteq> 0)) \<and>
     ((C_lit MS_SSIM_label \<in> set report) =
        (score_if_present X (setScoreAggregateMethod (pool_method self)) r ''ms_ssim'' \<noteq> 0)) \<and>
     (\<not> has_scores r ''psnr'' \<longrightarrow> C_lit PSNR_label \<notin> set report) \<and>
     (\<not> has_scores r ''ssim'' \<longrightarrow> C_lit SSIM_label \<notin> set report) \<and>
     (\<not> has_scores r ''ms_ssim'' \<longrightarrow> C_lit MS_SSIM_label \<notin> set report) \<and>
     (\<exists>pre post. report = pre @ [C_lit ''  "VMAF score":'', C_double (score h')] @ post) \<and>
     get_score X (setScoreAggregateMethod (pool_method self)) r ''vmaf'' = Some (score h')\<close>
proof
  assume a: "RunVMAF X self (Returns r) h = Inr (ret, h', console, Some report)"
  then obtain v nb bs where
    l: "RunVMAF_log X self (setScoreAggregateMethod (pool_method self)) r (frame_width h)
       (frame_height h) v nb bs = Inr report" and v: "score h' = v"
    by (rule RunVMAF_report_log)
  from a have g: "get_score X (setScoreAggregateMethod (pool_method self)) r ''vmaf'' =
      Some (score h')"
    by (auto simp: RunVMAF_def Let_def split: option.splits prod.splits sum.splits if_splits)
  from RunVMAF_log_vmaf_entry[OF l] v
  have e: \<open>\<exists>pre post. report = pre @ [C_lit ''  "VMAF score":'', C_double (score h')] @ post\<close>
    by simp
  from RunVMAF_log_labels[OF l] e g
  show \<open>((C_lit PSNR_label \<in> set report) =
        (score_if_present X (setScoreAggregateMethod (pool_method self)) r ''psnr'' \<noteq> 0)) \<and>
     ((C_lit SSIM_label \<in> set report) =
        (score_if_present X (setScoreAggregateMethod (pool_method self)) r ''ssim'' \<noteq> 0)) \<and>
     ((C_lit MS_SSIM_label \<in> set report) =
        (score_if_present X (setScoreAggregateMethod (pool_method self)) r ''ms_ssim'' \<noteq> 0)) \<and>
     (\<not> has_scores r ''psnr'' \<longrightarrow> C_lit PSNR_label \<notin> set report) \<and>
     (\<not> has_scores r ''ssim'' \<longrightarrow> C_lit SSIM_label \<notin> set report) \<and>
     (\<not> has_scores r ''ms_ssim'' \<longrightarrow> C_lit MS_SSIM_label \<notin> set report) \<and>
     (\<exists>pre post. report = pre @ [C_lit ''  "VMAF score":'', C_double (score h')] @ post) \<and>
     get_score X (setScoreAggregateMethod (pool_method self)) r ''vmaf'' = Some (score h')\<close>
    by (simp add: score_if_present_absent)
qed

theorem unselected_aggregates_omitted_witness:
  \<open>RunVMAF stub_libs logging_vmaf (Returns four_scores) ready_helper =
     Inr (0, ready_helper\<lparr>score := 93, error := 0\<rparr>, [''VMAF score (mean) = 93''],
          Some report_stride3) \<and>
   \<not> has_scores four_scores ''psnr'' \<and> \<not> has_scores four_scores ''ssim'' \<and>
   \<not> has_scores four_scores ''ms_ssim'' \<and>
   C_lit PSNR_label \<notin> set report_stride3 \<and>
   C_lit SSIM_label \<notin> set report_stride3 \<and>
   C_lit MS_SSIM_label \<notin> set report_stride3 \<and>
   (\<exists>pre post. report_stride3 = pre @ [C_lit ''  "VMAF score":'', C_double 93] @ post) \<and>
   log_aggregates 93 30 0 0 = psnr_entry_written\<close>
proof -
  have n: "\<not> has_scores four_scores ''psnr'' \<and> \<not> has_scores four_scores ''ssim'' \<and>
           \<not> has_scores four_scores ''ms_ssim''"
    by (simp add: has_scores_def get_keys_def four_scores_def)
  note t = unselected_aggregates_omitted[of stub_libs logging_vmaf four_scores ready_helper 0
      "ready_helper\<lparr>score := 93, error := 0\<rparr>" "[''VMAF score (mean) = 93'']"
      report_stride3, THEN mp, OF run_stride3]
  from t n have "C_lit PSNR_label \<notin> set report_stride3 \<and>
     C_lit SSIM_label \<notin> set report_stride3 \<and> C_lit MS_SSIM_label \<notin> set report_stride3"
    by blast
  moreover from t
  have \<open>\<exists>pre post. report_stride3 = pre @ [C_lit ''  "VMAF score":'', C_double 93] @ post\<close>
    by simp
  moreover have "log_aggregates 93 30 0 0 = psnr_entry_written"
    by (simp add: log_aggregates_def log_entry_if_nonzero_def psnr_entry_written_def
          PSNR_label_def)
  ultimately show ?thesis using run_stride3 n by simp
qed

section \<open>Console lines\<close>











end
